theory Spec2Isabelle
  imports Complex_Main
begin

section \<open>The number type of the source\<close>

text \<open>
  Every numeric value of the TypeScript source is a \<^verbatim>\<open>number\<close>. The type keeps the
  four kinds of value the code can tell apart: a finite value, the two infinities and NaN.
  The operations \<open>+\<close>, \<open>-\<close>, \<open>*\<close> and \<open>/\<close> of the type are the exact ones: on finite
  values they are those of the reals, without the rounding and the overflow of double
  precision, which the section on double precision adds on top of them. The sign of
  zero is not kept (a non-zero finite dividend over zero gives the infinity of the
  dividend's sign). Every comparison with NaN is false, and NaN is absorbing for the
  arithmetic, as in the source language.
\<close>

datatype number = NaN | Fin real | PInf | NInf

fun is_pos :: "number \<Rightarrow> bool" where
  "is_pos (Fin a) = (0 < a)"
| "is_pos PInf = True"
| "is_pos _ = False"

fun is_neg :: "number \<Rightarrow> bool" where
  "is_neg (Fin a) = (a < 0)"
| "is_neg NInf = True"
| "is_neg _ = False"

instantiation number :: "{plus, minus, uminus, times, inverse, ord}"
begin

fun plus_number :: "number \<Rightarrow> number \<Rightarrow> number" where
  "plus_number NaN _ = NaN"
| "plus_number _ NaN = NaN"
| "plus_number (Fin a) (Fin b) = Fin (a + b)"
| "plus_number PInf NInf = NaN"
| "plus_number NInf PInf = NaN"
| "plus_number PInf _ = PInf"
| "plus_number _ PInf = PInf"
| "plus_number NInf _ = NInf"
| "plus_number _ NInf = NInf"

fun uminus_number :: "number \<Rightarrow> number" where
  "uminus_number NaN = NaN"
| "uminus_number (Fin a) = Fin (- a)"
| "uminus_number PInf = NInf"
| "uminus_number NInf = PInf"

definition minus_number :: "number \<Rightarrow> number \<Rightarrow> number" where
  "minus_number u v = u + (- v)"

fun times_number :: "number \<Rightarrow> number \<Rightarrow> number" where
  "times_number NaN _ = NaN"
| "times_number _ NaN = NaN"
| "times_number (Fin a) (Fin b) = Fin (a * b)"
| "times_number u v =
     (if (is_pos u \<and> is_pos v) \<or> (is_neg u \<and> is_neg v) then PInf
      else if (is_pos u \<and> is_neg v) \<or> (is_neg u \<and> is_pos v) then NInf
      else NaN)"

fun divide_number :: "number \<Rightarrow> number \<Rightarrow> number" where
  "divide_number NaN _ = NaN"
| "divide_number _ NaN = NaN"
| "divide_number (Fin a) (Fin b) =
     (if b \<noteq> 0 then Fin (a / b)
      else if a = 0 then NaN
      else if 0 < a then PInf else NInf)"
| "divide_number (Fin a) _ = Fin 0"
| "divide_number u (Fin b) =
     (if (is_pos u \<and> 0 \<le> b) \<or> (is_neg u \<and> b < 0) then PInf else NInf)"
| "divide_number _ _ = NaN"

definition inverse_number :: "number \<Rightarrow> number" where
  "inverse_number u = Fin 1 div u"

fun less_number :: "number \<Rightarrow> number \<Rightarrow> bool" where
  "less_number NaN _ = False"
| "less_number _ NaN = False"
| "less_number (Fin a) (Fin b) = (a < b)"
| "less_number PInf _ = False"
| "less_number _ PInf = True"
| "less_number _ NInf = False"
| "less_number NInf _ = True"

fun less_eq_number :: "number \<Rightarrow> number \<Rightarrow> bool" where
  "less_eq_number NaN _ = False"
| "less_eq_number _ NaN = False"
| "less_eq_number (Fin a) (Fin b) = (a \<le> b)"
| "less_eq_number PInf PInf = True"
| "less_eq_number PInf _ = False"
| "less_eq_number _ PInf = True"
| "less_eq_number NInf _ = True"
| "less_eq_number _ NInf = False"

instance ..

end

text \<open>The functions of \<^verbatim>\<open>Math\<close> and the global predicates the source calls.\<close>

fun isNaN :: "number \<Rightarrow> bool" where
  "isNaN NaN = True"
| "isNaN _ = False"

fun isFinite :: "number \<Rightarrow> bool" where
  "isFinite (Fin a) = True"
| "isFinite _ = False"

fun Math_sqrt :: "number \<Rightarrow> number" where
  "Math_sqrt (Fin a) = (if a < 0 then NaN else Fin (sqrt a))"
| "Math_sqrt PInf = PInf"
| "Math_sqrt _ = NaN"

fun Math_abs :: "number \<Rightarrow> number" where
  "Math_abs NaN = NaN"
| "Math_abs (Fin a) = Fin \<bar>a\<bar>"
| "Math_abs _ = PInf"

definition Math_max :: "number \<Rightarrow> number \<Rightarrow> number" where
  "Math_max u v = (if isNaN u \<or> isNaN v then NaN else if u \<le> v then v else u)"

definition Math_min :: "number \<Rightarrow> number \<Rightarrow> number" where
  "Math_min u v = (if isNaN u \<or> isNaN v then NaN else if u \<le> v then u else v)"

fun Math_acos :: "number \<Rightarrow> number" where
  "Math_acos (Fin a) = (if - 1 \<le> a \<and> a \<le> 1 then Fin (arccos a) else NaN)"
| "Math_acos _ = NaN"

fun Math_sin :: "number \<Rightarrow> number" where
  "Math_sin (Fin a) = Fin (sin a)"
| "Math_sin _ = NaN"

fun Math_round :: "number \<Rightarrow> number" where
  "Math_round (Fin a) = Fin (of_int \<lfloor>a + 1 / 2\<rfloor>)"
| "Math_round u = u"

text \<open>
  The comparison \<^verbatim>\<open>==\<close> of two numbers: NaN is equal to nothing, itself included;
  \<^verbatim>\<open>!=\<close> is its negation.
\<close>

definition num_eq :: "number \<Rightarrow> number \<Rightarrow> bool" where
  "num_eq u v = (\<not> isNaN u \<and> \<not> isNaN v \<and> u = v)"

section \<open>Double precision\<close>

text \<open>
  The source computes with IEEE 754 doubles: the result of an operation is the exact
  result rounded to the nearest double, a tie going to the double whose significand is
  even. A double is a whole multiple of a power of two, with a significand below
  \<open>2\<^sup>5\<^sup>3\<close>: for \<open>2\<^sup>e \<le> |x| < 2\<^sup>e\<^sup>+\<^sup>1\<close> the doubles around \<open>x\<close> are the multiples of
  \<open>2\<^sup>e\<^sup>-\<^sup>5\<^sup>2\<close>, and below \<open>2\<^sup>-\<^sup>1\<^sup>0\<^sup>2\<^sup>2\<close> they are the multiples of \<open>2\<^sup>-\<^sup>1\<^sup>0\<^sup>7\<^sup>4\<close>. A rounded
  value of magnitude \<open>2\<^sup>1\<^sup>0\<^sup>2\<^sup>4\<close> or more is an infinity.

  \<open>round_even\<close> rounds a real to the nearest integer, a tie to the even one;
  \<open>ulp_exponent x\<close> is the exponent of the spacing of the doubles around \<open>x\<close>; \<open>fl x\<close>
  is the double nearest to \<open>x\<close>, and \<open>rounded\<close> rounds a finite value and keeps the others.
\<close>

definition round_even :: "real \<Rightarrow> int" where
  "round_even y =
     (let f = \<lfloor>y\<rfloor>; t = y - of_int f
      in if t < 1 / 2 then f else if 1 / 2 < t then f + 1 else if even f then f else f + 1)"

definition ulp_exponent :: "real \<Rightarrow> int" where
  "ulp_exponent x = max \<lfloor>log 2 \<bar>x\<bar>\<rfloor> (- 1022) - 52"

definition fl :: "real \<Rightarrow> number" where
  "fl x =
     (if x = 0 then Fin 0
      else (let u = 2 powr of_int (ulp_exponent x);
                y = of_int (round_even (x / u)) * u
            in if 2 ^ 1024 \<le> \<bar>y\<bar> then (if 0 < x then PInf else NInf) else Fin y))"

fun rounded :: "number \<Rightarrow> number" where
  "rounded (Fin a) = fl a"
| "rounded u = u"

text \<open>
  The operations of the source: \<open>dadd\<close>, \<open>dsub\<close>, \<open>dmul\<close>, \<open>ddiv\<close> are \<^verbatim>\<open>+\<close>, \<^verbatim>\<open>-\<close>,
  \<^verbatim>\<open>*\<close>, \<^verbatim>\<open>/\<close> and \<open>dsqrt\<close> is \<^verbatim>\<open>Math.sqrt\<close>, each the exact operation followed by the
  rounding. \<open>dlit x\<close> is the decimal literal \<open>x\<close> of the source text, which denotes the
  double nearest to it. For \<^verbatim>\<open>Math.acos\<close> and \<^verbatim>\<open>Math.sin\<close> the language leaves the last
  digits to the implementation; \<open>dacos\<close> and \<open>dsin\<close> take the correctly rounded value.
  Comparisons, \<^verbatim>\<open>Math.abs\<close>, \<^verbatim>\<open>Math.max\<close> and \<^verbatim>\<open>Math.min\<close> do not round.
\<close>

definition dadd :: "number \<Rightarrow> number \<Rightarrow> number" where
  "dadd u v = rounded (u + v)"

definition dsub :: "number \<Rightarrow> number \<Rightarrow> number" where
  "dsub u v = rounded (u - v)"

definition dmul :: "number \<Rightarrow> number \<Rightarrow> number" where
  "dmul u v = rounded (u * v)"

definition ddiv :: "number \<Rightarrow> number \<Rightarrow> number" where
  "ddiv u v = rounded (u / v)"

definition dsqrt :: "number \<Rightarrow> number" where
  "dsqrt u = rounded (Math_sqrt u)"

definition dacos :: "number \<Rightarrow> number" where
  "dacos u = rounded (Math_acos u)"

definition dsin :: "number \<Rightarrow> number" where
  "dsin u = rounded (Math_sin u)"

definition dlit :: "real \<Rightarrow> number" where
  "dlit x = fl x"

section \<open>Geometry utility functions\<close>

text \<open>
  \<^verbatim>\<open>TSMT$getQuadrant\<close>: the quadrant number (1 to 4) of the point \<open>(px, py)\<close> relative
  to the rectangle with corners \<open>(left, top)\<close> and \<open>(right, bottom)\<close>, or 0. The
  parameter \<^verbatim>\<open>top\<close> is written \<open>top'\<close>. The function is given twice: \<open>TSMT_getQuadrant\<close>
  computes the centre of the rectangle exactly, \<open>TSMT_getQuadrant_double\<close> computes it
  in double precision, as the source does. The two agree whenever the two sums and
  their halves are doubles, as for whole corners up to \<open>2\<^sup>5\<^sup>2\<close>; the statements about the
  simulation, which do not depend on where the centre lies, are made with the first.
\<close>

definition TSMT_getQuadrant ::
  "number \<Rightarrow> number \<Rightarrow> number \<Rightarrow> number \<Rightarrow> number \<Rightarrow> number \<Rightarrow> int" where
  "TSMT_getQuadrant px py left top' right bottom =
     (let xc = Fin 0.5 * (left + right);
          yc = Fin 0.5 * (bottom + top');
          yDown = (top' \<le> bottom);
          xgt = (px \<ge> xc \<and> px \<le> right);
          xlt = (px \<le> xc \<and> px \<ge> left);
          yhigh = (if yDown then py \<le> yc \<and> py \<ge> top' else py \<ge> yc \<and> py \<le> top');
          ylow = (if yDown then py \<ge> yc \<and> py \<le> bottom else py \<le> yc \<and> py \<ge> bottom)
      in if xgt \<and> yhigh then 1
         else if xgt \<and> ylow then 2
         else if xlt \<and> ylow then 3
         else if xlt \<and> yhigh then 4
         else 0)"

definition TSMT_getQuadrant_double ::
  "number \<Rightarrow> number \<Rightarrow> number \<Rightarrow> number \<Rightarrow> number \<Rightarrow> number \<Rightarrow> int" where
  "TSMT_getQuadrant_double px py left top' right bottom =
     (let xc = dmul (Fin 0.5) (dadd left right);
          yc = dmul (Fin 0.5) (dadd bottom top');
          yDown = (top' \<le> bottom);
          xgt = (px \<ge> xc \<and> px \<le> right);
          xlt = (px \<le> xc \<and> px \<ge> left);
          yhigh = (if yDown then py \<le> yc \<and> py \<ge> top' else py \<ge> yc \<and> py \<le> top');
          ylow = (if yDown then py \<ge> yc \<and> py \<le> bottom else py \<le> yc \<and> py \<ge> bottom)
      in if xgt \<and> yhigh then 1
         else if xgt \<and> ylow then 2
         else if xlt \<and> ylow then 3
         else if xlt \<and> yhigh then 4
         else 0)"

section \<open>Circle utility functions\<close>

text \<open>
  The functions of \<^verbatim>\<open>circle-util-functions.ts\<close>. The objects they return are records;
  a field of the source named \<^verbatim>\<open>x\<close> is written with a prefix (\<open>pt_x\<close>, \<open>in_x\<close>) so that
  the short names stay free for variables; a parameter or local whose name is a constant
  of the logic (\<^verbatim>\<open>dist\<close>, \<^verbatim>\<open>norm\<close>) is written with a prime. A function whose name
  ends in \<open>_double\<close> computes in double precision.
\<close>

record point =
  pt_x :: number
  pt_y :: number

record chord_params =
  ch_l :: number
  ch_theta :: number
  ch_area :: number

record incircle =
  in_r :: number
  in_x :: number
  in_y :: number
  in_area :: number
  in_p :: number

definition TSMT_CircleChordParams_double :: "number \<Rightarrow> number \<Rightarrow> chord_params" where
  "TSMT_CircleChordParams_double radius dist' =
     (let r = (if isNaN radius \<or> radius < Fin 0 then dlit 0.05 else radius);
          d0 = (if isNaN dist' then Fin 0 else dist');
          d1 = Math_max (Fin 0) d0;
          d = Math_min r d1;
          h = dsub r d;
          theta = dacos (ddiv d r);
          len = dmul (Fin 2.0) (dsqrt (dmul h (dsub (dmul (Fin 2) r) h)));
          area = dmul (dmul (dmul (Fin 0.5) r) r) (dsub theta (dsin theta))
      in \<lparr>ch_l = len, ch_theta = theta, ch_area = area\<rparr>)"

text \<open>
  \<^verbatim>\<open>TSMT$TriangleCircumcircle\<close>. The three guarded copies \<open>_a\<close>, \<open>_b\<close>, \<open>_c\<close> of the source
  are all computed from the first argument, and the returned quotient uses the arguments
  themselves.
\<close>

definition TSMT_TriangleCircumcircle :: "number \<Rightarrow> number \<Rightarrow> number \<Rightarrow> number" where
  "TSMT_TriangleCircumcircle a b c =
     (let a' = (if isNaN a \<or> a < Fin 0 then Fin 0 else a);
          b' = (if isNaN a \<or> a < Fin 0 then Fin 0 else a);
          c' = (if isNaN a \<or> a < Fin 0 then Fin 0 else a)
      in if num_eq a' (Fin 0) \<and> num_eq b' (Fin 0) \<and> num_eq c' (Fin 0) then Fin 0
         else a * b * c / Math_sqrt ((a + b + c) * (b + c - a) * (c + a - b) * (a + b - c)))"

definition TSMT_TriangleIncircle_double ::
  "number \<Rightarrow> number \<Rightarrow> number \<Rightarrow> number \<Rightarrow> number \<Rightarrow> number \<Rightarrow> incircle" where
  "TSMT_TriangleIncircle_double ax ay bx by cx cy =
     (let a = (let dx = dsub cx bx; dy = dsub cy by in dsqrt (dadd (dmul dx dx) (dmul dy dy)));
          b = (let dx = dsub cx ax; dy = dsub cy ay in dsqrt (dadd (dmul dx dx) (dmul dy dy)));
          c = (let dx = dsub bx ax; dy = dsub by ay in dsqrt (dadd (dmul dx dx) (dmul dy dy)));
          s = dadd (dadd a b) c
      in if s < dlit 0.00000001
         then \<lparr>in_r = Fin 0, in_x = ax, in_y = ay, in_area = Fin 0, in_p = Fin 0\<rparr>
         else
           (let p = ddiv (Fin 1.0) s;
                incenterX = dmul (dadd (dadd (dmul a ax) (dmul b bx)) (dmul c cx)) p;
                incenterY = dmul (dadd (dadd (dmul a ay) (dmul b by)) (dmul c cy)) p;
                semi = dmul (Fin 0.5) s;
                area = dsqrt (dmul (dmul (dmul semi (dsub semi a)) (dsub semi b)) (dsub semi c));
                r = dmul (dmul (Fin 2) area) p
            in \<lparr>in_r = r, in_x = incenterX, in_y = incenterY, in_area = area, in_p = s\<rparr>))"

definition TSMT_CircleToCircleIntersection_double ::
  "number \<Rightarrow> number \<Rightarrow> number \<Rightarrow> number \<Rightarrow> number \<Rightarrow> number \<Rightarrow> point list" where
  "TSMT_CircleToCircleIntersection_double x0 y0 r0 x1 y1 r1 =
     (let dx = dsub x1 x0;
          dy = dsub y1 y0;
          d = dsqrt (dadd (dmul dx dx) (dmul dy dy))
      in if d > dadd r0 r1 \<or> d < Math_abs (dsub r0 r1) then []
         else if Math_abs d < dlit 0.001 \<and> Math_abs (dsub r1 r0) < dlit 0.001 then []
         else
           (let r0sq = dmul r0 r0;
                a = ddiv (dadd (dsub r0sq (dmul r1 r1)) (dmul d d)) (dmul (Fin 2) d);
                h = dsqrt (dsub r0sq (dmul a a));
                ux = ddiv dx d;
                uy = ddiv dy d;
                x2 = dadd x0 (dmul a ux);
                y2 = dadd y0 (dmul a uy);
                x3 = dadd x2 (dmul h uy);
                y3 = dsub y2 (dmul h ux);
                intersect = [\<lparr>pt_x = x3, pt_y = y3\<rparr>]
            in if \<not> num_eq d (dadd r0 r1)
               then (let x4 = dsub x2 (dmul h uy); y4 = dadd y2 (dmul h ux)
                     in intersect @ [\<lparr>pt_x = x4, pt_y = y4\<rparr>])
               else intersect))"

definition TSMT_CircleSegmentIntersection ::
  "number \<Rightarrow> number \<Rightarrow> number \<Rightarrow> number \<Rightarrow> number \<Rightarrow> number \<Rightarrow> number \<Rightarrow> point list" where
  "TSMT_CircleSegmentIntersection x1 y1 x2 y2 xc yc r =
     (let dx = x2 - x1;
          dy = y2 - y1;
          normSq = dx * dx + dy * dy;
          t = ((xc - x1) * (x2 - x1) + (yc - y1) * (y2 - y1)) / normSq;
          ex = (Fin 1 - t) * x1 + t * x2;
          ey = (Fin 1 - t) * y1 + t * y2;
          tx = ex - xc;
          ty = ey - yc;
          d = Math_sqrt (tx * tx + ty * ty)
      in if Math_abs (d - r) < Fin 0.0001 then [\<lparr>pt_x = ex, pt_y = ey\<rparr>]
         else if d < r then
           (let norm' = Math_sqrt normSq;
                dt = Math_sqrt (Math_abs (r * r - d * d)) / norm';
                t1 = t - dt;
                t2 = t + dt
            in [\<lparr>pt_x = t1 * dx + x1, pt_y = t1 * dy + y1\<rparr>,
                \<lparr>pt_x = t2 * dx + x1, pt_y = t2 * dy + y1\<rparr>])
         else [])"

text \<open>
  \<^verbatim>\<open>TSMT$PointInCircle\<close>: the two tests against the bounding box of the circle come
  first, then the comparison of the squared distance with the squared radius. The
  function is given twice: \<open>TSMT_PointInCircle\<close> in exact arithmetic and
  \<open>TSMT_PointInCircle_double\<close> in double precision, as the source computes. The two
  agree whenever no operation rounds, as for whole coordinates up to \<open>2\<^sup>2\<^sup>5\<close>; the
  statements about the simulation are made with the first.
\<close>

definition TSMT_PointInCircle :: "number \<Rightarrow> number \<Rightarrow> number \<Rightarrow> number \<Rightarrow> number \<Rightarrow> bool" where
  "TSMT_PointInCircle px py xc yc r =
     (if py > yc + r \<or> py < yc - r then False
      else if px > xc + r \<or> px < xc - r then False
      else (let dx = px - xc; dy = py - yc in dx * dx + dy * dy \<le> r * r))"

definition TSMT_PointInCircle_double ::
  "number \<Rightarrow> number \<Rightarrow> number \<Rightarrow> number \<Rightarrow> number \<Rightarrow> bool" where
  "TSMT_PointInCircle_double px py xc yc r =
     (if py > dadd yc r \<or> py < dsub yc r then False
      else if px > dadd xc r \<or> px < dsub xc r then False
      else (let dx = dsub px xc; dy = dsub py yc
            in dadd (dmul dx dx) (dmul dy dy) \<le> dmul r r))"

section \<open>Geometry of the statements\<close>

text \<open>The Euclidean distance between two points of the plane, over the reals.\<close>

definition distance :: "real \<Rightarrow> real \<Rightarrow> real \<Rightarrow> real \<Rightarrow> real" where
  "distance px py xc yc = sqrt ((px - xc)\<^sup>2 + (py - yc)\<^sup>2)"

text \<open>
  The geometry the description of \<^verbatim>\<open>TSMT$getQuadrant\<close> refers to, over the reals: the
  closed rectangle between the two corners, whichever of \<open>top'\<close> and \<open>bottom\<close> is the
  smaller, and its four closed quadrant regions. Region 1 is the right half and the half
  next to \<open>top'\<close>, region 2 the right half and the half next to \<open>bottom\<close>, region 3 the
  left half next to \<open>bottom\<close>, region 4 the left half next to \<open>top'\<close>.
\<close>

definition in_closed_rect :: "real \<Rightarrow> real \<Rightarrow> real \<Rightarrow> real \<Rightarrow> real \<Rightarrow> real \<Rightarrow> bool" where
  "in_closed_rect px py left top' right bottom =
     (left \<le> px \<and> px \<le> right \<and> min top' bottom \<le> py \<and> py \<le> max top' bottom)"

definition quadrant_region ::
  "int \<Rightarrow> real \<Rightarrow> real \<Rightarrow> real \<Rightarrow> real \<Rightarrow> real \<Rightarrow> real \<Rightarrow> bool" where
  "quadrant_region q px py left top' right bottom =
     (let xc = (left + right) / 2;
          yc = (bottom + top') / 2;
          right_half = (xc \<le> px \<and> px \<le> right);
          left_half = (left \<le> px \<and> px \<le> xc);
          near_top = (if top' \<le> bottom then top' \<le> py \<and> py \<le> yc
                      else yc \<le> py \<and> py \<le> top');
          near_bottom = (if top' \<le> bottom then yc \<le> py \<and> py \<le> bottom
                         else bottom \<le> py \<and> py \<le> yc)
      in if q = 1 then right_half \<and> near_top
         else if q = 2 then right_half \<and> near_bottom
         else if q = 3 then left_half \<and> near_bottom
         else if q = 4 then left_half \<and> near_top
         else False)"

text \<open>The two values a difference \<open>u - u\<close> can take: zero for a finite \<open>u\<close>, NaN otherwise.\<close>

definition zero_or_NaN :: "number \<Rightarrow> bool" where
  "zero_or_NaN u = (u = Fin 0 \<or> u = NaN)"

text \<open>
  The circumradius as the description of \<^verbatim>\<open>TSMT$TriangleCircumcircle\<close> states it: the
  product of the sides over the square root of the product of the four sums, and 0 when
  all three sides are 0.
\<close>

definition circumradius_formula :: "number \<Rightarrow> number \<Rightarrow> number \<Rightarrow> number" where
  "circumradius_formula a b c =
     a * b * c / Math_sqrt ((a + b + c) * (- a + b + c) * (a - b + c) * (a + b - c))"

definition circumradius_stated :: "number \<Rightarrow> number \<Rightarrow> number \<Rightarrow> number" where
  "circumradius_stated a b c =
     (if num_eq a (Fin 0) \<and> num_eq b (Fin 0) \<and> num_eq c (Fin 0) then Fin 0
      else circumradius_formula a b c)"

text \<open>
  The length of the segment from \<open>(px, py)\<close> to \<open>(qx, qy)\<close> as the source computes it
  in double precision: the square root of the sum of the squares of the two differences.
\<close>

definition distance_double :: "number \<Rightarrow> number \<Rightarrow> number \<Rightarrow> number \<Rightarrow> number" where
  "distance_double px py qx qy =
     (let dx = dsub qx px; dy = dsub qy py in dsqrt (dadd (dmul dx dx) (dmul dy dy)))"

text \<open>
  The incircle of a triangle as the description of \<^verbatim>\<open>TSMT$TriangleIncircle\<close> states it,
  in double precision: \<open>a\<close>, \<open>b\<close>, \<open>c\<close> are the lengths of the sides opposite \<open>A\<close>, \<open>B\<close>,
  \<open>C\<close> and \<open>s\<close> is the perimeter; the centre is the average of the vertices weighted by
  these lengths, the area is Heron's formula and the radius is twice the area over the
  perimeter. Every quotient by the perimeter is a product with its rounded reciprocal.
  \<open>heron_area\<close> is Heron's formula over the reals.
\<close>

definition perimeter_double ::
  "number \<Rightarrow> number \<Rightarrow> number \<Rightarrow> number \<Rightarrow> number \<Rightarrow> number \<Rightarrow> number" where
  "perimeter_double ax ay bx by cx cy =
     dadd (dadd (distance_double bx by cx cy) (distance_double ax ay cx cy))
       (distance_double ax ay bx by)"

definition weighted_double ::
  "number \<Rightarrow> number \<Rightarrow> number \<Rightarrow> number \<Rightarrow> number \<Rightarrow> number \<Rightarrow> number \<Rightarrow> number" where
  "weighted_double a b c u v w s =
     dmul (dadd (dadd (dmul a u) (dmul b v)) (dmul c w)) (ddiv (Fin 1) s)"

definition heron_double :: "number \<Rightarrow> number \<Rightarrow> number \<Rightarrow> number \<Rightarrow> number" where
  "heron_double a b c s =
     (let semi = dmul (Fin 0.5) s
      in dsqrt (dmul (dmul (dmul semi (dsub semi a)) (dsub semi b)) (dsub semi c)))"

definition heron_area :: "real \<Rightarrow> real \<Rightarrow> real \<Rightarrow> real" where
  "heron_area a b c =
     (let semi = (a + b + c) / 2 in sqrt (semi * (semi - a) * (semi - b) * (semi - c)))"

text \<open>
  The chord of \<^verbatim>\<open>TSMT$CircleChordParams\<close> as its description states it: the distance
  clamped to \<open>[0, r]\<close>, and the length \<open>2 * sqrt (h * (2 * r - h))\<close> with \<open>h = r - d\<close>, in
  double precision.
\<close>

definition clamp_to :: "number \<Rightarrow> number \<Rightarrow> number" where
  "clamp_to r d = (if d < Fin 0 then Fin 0 else if r < d then r else d)"

definition chord_length_double :: "number \<Rightarrow> number \<Rightarrow> number" where
  "chord_length_double r d =
     (let h = dsub r d in dmul (Fin 2) (dsqrt (dmul h (dsub (dmul (Fin 2) r) h))))"

section \<open>The simulation on the canvas\<close>

text \<open>
  The parameters of \<^verbatim>\<open>CircleService\<close> that the canvas simulation reads.
\<close>

definition NUM_CIRCLES :: nat where
  "NUM_CIRCLES = 100"

definition LOW_RADIUS :: number where
  "LOW_RADIUS = Fin 3"

definition HIGH_RADIUS :: number where
  "HIGH_RADIUS = Fin 15"

text \<open>
  \<^verbatim>\<open>pointRandomWalk\<close>. The two calls of \<^verbatim>\<open>Math.random\<close> are the parameters \<open>u1\<close>
  (for the radius) and \<open>u2\<close> (for the direction).
\<close>

definition pointRandomWalk ::
  "number \<Rightarrow> number \<Rightarrow> number \<Rightarrow> number \<Rightarrow> number \<Rightarrow> number \<Rightarrow> number \<times> number" where
  "pointRandomWalk px py low high u1 u2 =
     (let lowRange = low - Fin 0.499;
          highRange = high + Fin 0.499;
          r = Math_round (lowRange + u1 * (highRange - lowRange));
          t = u2
      in if t < Fin 0.25 then (px + r, py)
         else if t < Fin 0.5 then (px - r, py)
         else if t < Fin 0.75 then (px, py + r)
         else (px, py - r))"

text \<open>
  A circle of the simulation. The identifier of a circle is the decimal string of its
  index in the array of circles, and the code converts it back with a unary plus when it
  reads the array; the model keeps the index itself. The last four fields are the bounds
  that \<^verbatim>\<open>setBounds\<close> stores.
\<close>

record circle =
  c_id :: nat
  c_x :: number
  c_y :: number
  c_radius :: number
  c_left :: number
  c_top :: number
  c_right :: number
  c_bottom :: number

text \<open>
  Modelled from the spec: the class \<^verbatim>\<open>TSMT$Circle\<close> (\<^verbatim>\<open>shared/libs/circle.ts\<close>) with its
  methods \<^verbatim>\<open>setBounds\<close> and \<^verbatim>\<open>inQuadrant\<close> is not among the sources. The specification
  assigns a circle to a quadrant when the bounding square of the circle (centre plus and
  minus radius) meets the rectangle of the quadrant; the four rectangles are those of the
  quadrant numbering: 1 the right half next to the top, 2 the right half next to the
  bottom, 3 the left half next to the bottom, 4 the left half next to the top.
\<close>

definition setBounds :: "circle \<Rightarrow> number \<Rightarrow> number \<Rightarrow> number \<Rightarrow> number \<Rightarrow> circle" where
  "setBounds c left top' right bottom =
     c\<lparr>c_left := left, c_top := top', c_right := right, c_bottom := bottom\<rparr>"

definition intervals_meet :: "number \<Rightarrow> number \<Rightarrow> number \<Rightarrow> number \<Rightarrow> bool" where
  "intervals_meet lo hi a b = (lo \<le> b \<and> a \<le> hi)"

definition inQuadrant :: "circle \<Rightarrow> int \<Rightarrow> bool" where
  "inQuadrant c q =
     (let xc = Fin 0.5 * (c_left c + c_right c);
          yc = Fin 0.5 * (c_bottom c + c_top c);
          lo_x = c_x c - c_radius c;
          hi_x = c_x c + c_radius c;
          lo_y = c_y c - c_radius c;
          hi_y = c_y c + c_radius c;
          right_half = intervals_meet lo_x hi_x xc (c_right c);
          left_half = intervals_meet lo_x hi_x (c_left c) xc;
          near_top = (if c_top c \<le> c_bottom c then intervals_meet lo_y hi_y (c_top c) yc
                      else intervals_meet lo_y hi_y yc (c_top c));
          near_bottom = (if c_top c \<le> c_bottom c then intervals_meet lo_y hi_y yc (c_bottom c)
                         else intervals_meet lo_y hi_y (c_bottom c) yc)
      in if q = 1 then right_half \<and> near_top
         else if q = 2 then right_half \<and> near_bottom
         else if q = 3 then left_half \<and> near_bottom
         else if q = 4 then left_half \<and> near_top
         else False)"

text \<open>
  The state of \<^verbatim>\<open>PicCanvasDirective\<close>, without the display objects: a member \<^verbatim>\<open>_name\<close>
  of the class is the field \<open>pic_name\<close>. A quadrant map \<^verbatim>\<open>_quad1\<close> to \<^verbatim>\<open>_quad4\<close> is an
  object whose keys are circle identifiers; the model keeps the list of its keys in the
  order \<^verbatim>\<open>Object.keys\<close> returns them, which for integer keys is the ascending one.
  \<^verbatim>\<open>_check\<close> is undefined (\<open>None\<close>) until the first assignment.
\<close>

record directive =
  pic_width :: number
  pic_height :: number
  pic_circleRefs :: "circle list"
  pic_identified :: "circle list"
  pic_px :: number
  pic_py :: number
  pic_curQuad :: int
  pic_prevQuad :: int
  pic_check :: "nat list option"
  pic_quad1 :: "nat list"
  pic_quad2 :: "nat list"
  pic_quad3 :: "nat list"
  pic_quad4 :: "nat list"

datatype error = TypeError

text \<open>The assignment \<^verbatim>\<open>quad[id] = true\<close> on the keys of a quadrant map.\<close>

definition put_key :: "nat \<Rightarrow> nat list \<Rightarrow> nat list" where
  "put_key k ks = (if k \<in> set ks then ks else insort k ks)"

text \<open>
  The lookup \<^verbatim>\<open>this[`_quad${q}`]\<close> followed by \<^verbatim>\<open>Object.keys\<close>: the keys of the map of
  quadrant \<open>q\<close>; there is no such member for another \<open>q\<close>.
\<close>

definition quad_keys :: "directive \<Rightarrow> int \<Rightarrow> nat list option" where
  "quad_keys s q =
     (if q = 1 then Some (pic_quad1 s)
      else if q = 2 then Some (pic_quad2 s)
      else if q = 3 then Some (pic_quad3 s)
      else if q = 4 then Some (pic_quad4 s)
      else None)"

text \<open>
  The constructor. The members it does not assign are undefined; for the numbers among
  them the model writes NaN, and \<^verbatim>\<open>ngOnInit\<close> assigns them before any use.
\<close>

definition PicCanvasDirective_constructor :: directive where
  "PicCanvasDirective_constructor =
     \<lparr>pic_width = NaN, pic_height = NaN, pic_circleRefs = [], pic_identified = [],
      pic_px = NaN, pic_py = NaN, pic_curQuad = 0, pic_prevQuad = - 1, pic_check = None,
      pic_quad1 = [], pic_quad2 = [], pic_quad3 = [], pic_quad4 = []\<rparr>"

text \<open>
  One round of the loop of \<^verbatim>\<open>__initCircles\<close>, for the index \<open>i\<close> and the three numbers
  \<open>(x, y, r)\<close> drawn by \<^verbatim>\<open>RandomIntInRange.generateInRange\<close> in this round, and the loop
  over the indices below \<^verbatim>\<open>NUM_CIRCLES\<close>; \<open>rnd i\<close> is the draw of round \<open>i\<close>.
\<close>

definition initCircle :: "nat \<Rightarrow> number \<times> number \<times> number \<Rightarrow> directive \<Rightarrow> directive" where
  "initCircle i xyr s =
     (let c0 = \<lparr>c_id = i, c_x = fst xyr, c_y = fst (snd xyr), c_radius = snd (snd xyr),
                c_left = NaN, c_top = NaN, c_right = NaN, c_bottom = NaN\<rparr>;
          c = setBounds c0 (Fin 0) (Fin 0) (pic_width s) (pic_height s);
          s1 = (if inQuadrant c 1 then s\<lparr>pic_quad1 := put_key (c_id c) (pic_quad1 s)\<rparr> else s);
          s2 = (if inQuadrant c 2 then s1\<lparr>pic_quad2 := put_key (c_id c) (pic_quad2 s1)\<rparr> else s1);
          s3 = (if inQuadrant c 3 then s2\<lparr>pic_quad3 := put_key (c_id c) (pic_quad3 s2)\<rparr> else s2);
          s4 = (if inQuadrant c 4 then s3\<lparr>pic_quad4 := put_key (c_id c) (pic_quad4 s3)\<rparr> else s3)
      in s4\<lparr>pic_circleRefs := pic_circleRefs s4 @ [c]\<rparr>)"

definition PicCanvasDirective_initCircles ::
  "(nat \<Rightarrow> number \<times> number \<times> number) \<Rightarrow> directive \<Rightarrow> directive" where
  "PicCanvasDirective_initCircles rnd s = fold (\<lambda>i. initCircle i (rnd i)) [0..<NUM_CIRCLES] s"

text \<open>
  \<^verbatim>\<open>ngOnInit\<close>, for the client width and height of the element: the point starts at the
  centre and the circles are initialized.
\<close>

definition PicCanvasDirective_ngOnInit ::
  "number \<Rightarrow> number \<Rightarrow> (nat \<Rightarrow> number \<times> number \<times> number) \<Rightarrow> directive" where
  "PicCanvasDirective_ngOnInit w h rnd =
     (let s = PicCanvasDirective_constructor\<lparr>pic_width := w, pic_height := h\<rparr>;
          s' = s\<lparr>pic_px := Math_round (Fin 0.5 * pic_width s),
                 pic_py := Math_round (Fin 0.5 * pic_height s)\<rparr>
      in PicCanvasDirective_initCircles rnd s')"

text \<open>
  The callback of \<^verbatim>\<open>_check.forEach\<close> in \<^verbatim>\<open>next\<close>, run over the identifiers: a circle that
  contains the point is pushed on \<^verbatim>\<open>_identified\<close> and its identifier is emitted. Reading
  a property of an array element that does not exist raises \<^verbatim>\<open>TypeError\<close>.
\<close>

fun check_forEach :: "nat list \<Rightarrow> directive \<Rightarrow> nat list \<Rightarrow> error + directive \<times> nat list" where
  "check_forEach [] s emitted = Inr (s, emitted)"
| "check_forEach (i # ids) s emitted =
     (if i < length (pic_circleRefs s)
      then (let circ = pic_circleRefs s ! i
            in if TSMT_PointInCircle (pic_px s) (pic_py s) (c_x circ) (c_y circ) (c_radius circ)
               then check_forEach ids (s\<lparr>pic_identified := pic_identified s @ [circ]\<rparr>)
                      (emitted @ [i])
               else check_forEach ids s emitted)
      else Inl TypeError)"

text \<open>
  \<^verbatim>\<open>next\<close>, one step of the simulation, for the two random numbers of the walk. The
  result is the new state with the identifiers emitted through \<^verbatim>\<open>onIntersect\<close> in this
  step, in order, or the exception raised.
\<close>

definition PicCanvasDirective_next ::
  "directive \<Rightarrow> number \<Rightarrow> number \<Rightarrow> error + directive \<times> nat list" where
  "PicCanvasDirective_next s u1 u2 =
     (let s1 = s\<lparr>pic_identified := []\<rparr>;
          p = pointRandomWalk (pic_px s1) (pic_py s1) LOW_RADIUS HIGH_RADIUS u1 u2;
          s2 = s1\<lparr>pic_px := fst p, pic_py := snd p\<rparr>;
          s3 = s2\<lparr>pic_curQuad := TSMT_getQuadrant (pic_px s2) (pic_py s2) (Fin 0) (Fin 0)
                                   (pic_width s2) (pic_height s2)\<rparr>
      in if pic_curQuad s3 > 0 \<and> pic_curQuad s3 < 5
         then
           (if pic_curQuad s3 \<noteq> pic_prevQuad s3
            then (case quad_keys s3 (pic_curQuad s3) of
                    None \<Rightarrow> Inl TypeError
                  | Some ks \<Rightarrow>
                      check_forEach ks
                        (s3\<lparr>pic_prevQuad := pic_curQuad s3, pic_check := Some ks\<rparr>) [])
            else (case pic_check s3 of
                    None \<Rightarrow> Inl TypeError
                  | Some ks \<Rightarrow> check_forEach ks s3 []))
         else Inr (s3, []))"


section \<open>Notions for the statements about the simulation\<close>

text \<open>
  For the statements about the simulation: the test the callback applies to the circle
  with identifier \<open>i\<close>, and the identifiers a step emits, read off the state the step
  leaves (its quadrant, its list of candidates, its circles and its point).
\<close>

definition point_in :: "circle list \<Rightarrow> number \<Rightarrow> number \<Rightarrow> nat \<Rightarrow> bool" where
  "point_in refs px py i =
     (let circ = refs ! i in TSMT_PointInCircle px py (c_x circ) (c_y circ) (c_radius circ))"

definition inside :: "directive \<Rightarrow> nat \<Rightarrow> bool" where
  "inside s = point_in (pic_circleRefs s) (pic_px s) (pic_py s)"


text \<open>
  Every identifier in a quadrant map and in the list of candidates is an index of the
  array of circles, and the list of candidates is defined once a quadrant has been
  recorded. \<^verbatim>\<open>ngOnInit\<close> establishes this and every step keeps it; a step from such a
  state raises no exception.
\<close>

definition keys_in_range :: "directive \<Rightarrow> bool" where
  "keys_in_range s =
     (let n = length (pic_circleRefs s)
      in list_all (\<lambda>i. i < n) (pic_quad1 s) \<and> list_all (\<lambda>i. i < n) (pic_quad2 s) \<and>
         list_all (\<lambda>i. i < n) (pic_quad3 s) \<and> list_all (\<lambda>i. i < n) (pic_quad4 s) \<and>
         (case pic_check s of
            None \<Rightarrow> \<not> (0 < pic_prevQuad s \<and> pic_prevQuad s < 5)
          | Some ks \<Rightarrow> list_all (\<lambda>i. i < n) ks))"

text \<open>
  The parts of a step: the position after the random walk, the quadrant that
  \<^verbatim>\<open>TSMT$getQuadrant\<close> returns for it, and the state once \<^verbatim>\<open>_identified\<close> is emptied, the
  point is moved and the quadrant is stored.
\<close>

definition walked :: "directive \<Rightarrow> number \<Rightarrow> number \<Rightarrow> number \<times> number" where
  "walked s u1 u2 = pointRandomWalk (pic_px s) (pic_py s) LOW_RADIUS HIGH_RADIUS u1 u2"

definition walked_quadrant :: "directive \<Rightarrow> number \<Rightarrow> number \<Rightarrow> int" where
  "walked_quadrant s u1 u2 =
     TSMT_getQuadrant (fst (walked s u1 u2)) (snd (walked s u1 u2)) (Fin 0) (Fin 0)
       (pic_width s) (pic_height s)"

definition moved :: "directive \<Rightarrow> number \<Rightarrow> number \<Rightarrow> directive" where
  "moved s u1 u2 =
     s\<lparr>pic_identified := [], pic_px := fst (walked s u1 u2), pic_py := snd (walked s u1 u2),
       pic_curQuad := walked_quadrant s u1 u2\<rparr>"

text \<open>
  The circle that round \<open>i\<close> of \<^verbatim>\<open>__initCircles\<close> makes from its draw, with the bounds set;
  and draws that are finite numbers.
\<close>

definition made_circle :: "nat \<Rightarrow> number \<times> number \<times> number \<Rightarrow> number \<Rightarrow> number \<Rightarrow> circle" where
  "made_circle i xyr w h =
     \<lparr>c_id = i, c_x = fst xyr, c_y = fst (snd xyr), c_radius = snd (snd xyr),
      c_left = Fin 0, c_top = Fin 0, c_right = w, c_bottom = h\<rparr>"

definition finite_draws :: "(nat \<Rightarrow> real \<times> real \<times> real) \<Rightarrow> nat \<Rightarrow> number \<times> number \<times> number" where
  "finite_draws rnd i = (Fin (fst (rnd i)), Fin (fst (snd (rnd i))), Fin (snd (snd (rnd i))))"

text \<open>
  A state with three circles near the left edge of a canvas of 100 by 100; the point is
  on the left edge and on the horizontal dividing line, in quadrant 3.
\<close>

definition circle_a :: circle where
  "circle_a = \<lparr>c_id = 0, c_x = Fin 0, c_y = Fin 50, c_radius = Fin 10,
                c_left = Fin 0, c_top = Fin 0, c_right = Fin 100, c_bottom = Fin 100\<rparr>"

definition circle_b :: circle where
  "circle_b = \<lparr>c_id = 1, c_x = Fin 8, c_y = Fin 50, c_radius = Fin 6,
                c_left = Fin 0, c_top = Fin 0, c_right = Fin 100, c_bottom = Fin 100\<rparr>"

definition circle_c :: circle where
  "circle_c = \<lparr>c_id = 2, c_x = Fin 20, c_y = Fin 80, c_radius = Fin 8,
                c_left = Fin 0, c_top = Fin 0, c_right = Fin 100, c_bottom = Fin 100\<rparr>"

definition edge_state :: directive where
  "edge_state =
     \<lparr>pic_width = Fin 100, pic_height = Fin 100,
      pic_circleRefs = [circle_a, circle_b, circle_c],
      pic_identified = [], pic_px = Fin 0, pic_py = Fin 50,
      pic_curQuad = 3, pic_prevQuad = 3, pic_check = Some [0, 1, 2],
      pic_quad1 = [], pic_quad2 = [], pic_quad3 = [0, 1, 2], pic_quad4 = [0, 1]\<rparr>"

section \<open>Basic facts about finite numbers\<close>

lemma Fin_minus [simp]: "Fin a - Fin b = Fin (a - b)"
  by (simp add: minus_number_def)

lemma square_gt_outside:
  fixes r a :: real
  assumes r: "0 \<le> r" and a: "r < a \<or> a < - r"
  shows "r * r < a * a"
proof -
  from r a have "r < \<bar>a\<bar>" by auto
  then have "r * r < \<bar>a\<bar> * \<bar>a\<bar>" using r by (intro mult_strict_mono) auto
  then show ?thesis by simp
qed

lemma distance_le_iff:
  assumes r: "0 \<le> r"
  shows "distance px py xc yc \<le> r \<longleftrightarrow>
    (px - xc) * (px - xc) + (py - yc) * (py - yc) \<le> r * r"
proof -
  have "distance px py xc yc \<le> r \<longleftrightarrow>
      sqrt ((px - xc)\<^sup>2 + (py - yc)\<^sup>2) \<le> sqrt (r\<^sup>2)"
    using r by (simp add: distance_def)
  also have "\<dots> \<longleftrightarrow> (px - xc)\<^sup>2 + (py - yc)\<^sup>2 \<le> r\<^sup>2"
    by (rule real_sqrt_le_iff)
  finally show ?thesis by (simp add: power2_eq_square)
qed

section \<open>Rounding to double precision\<close>

text \<open>
  Rounding to the nearest integer: a real within a half of an integer rounds to it, and
  the result is never more than a half away.
\<close>

lemma round_even_int [simp]: "round_even (of_int n) = n"
  by (simp add: round_even_def)

lemma round_even_near:
  assumes "\<bar>y - of_int n\<bar> < 1 / 2"
  shows "round_even y = n"
proof -
  have "real_of_int n - 1 \<le> y" "y < real_of_int n + 1" using assms by linarith+
  then have "of_int (n - 1) \<le> y" "y < of_int (n + 1)" by simp_all
  then have "n - 1 \<le> \<lfloor>y\<rfloor>" "\<lfloor>y\<rfloor> < n + 1" by (simp_all only: le_floor_iff floor_less_iff)
  then have "\<lfloor>y\<rfloor> = n \<or> \<lfloor>y\<rfloor> = n - 1" by linarith
  then show ?thesis
  proof
    assume f: "\<lfloor>y\<rfloor> = n"
    then have "y - of_int n < 1 / 2" using assms by linarith
    with f show ?thesis by (simp add: round_even_def Let_def)
  next
    assume f: "\<lfloor>y\<rfloor> = n - 1"
    have "1 / 2 < y - (real_of_int n - 1)" using assms by linarith
    then have "1 / 2 < y - of_int (n - 1)" by simp
    with f show ?thesis by (simp add: round_even_def Let_def)
  qed
qed

lemma round_even_tie_down:
  assumes "y = of_int n + 1 / 2" "even n"
  shows "round_even y = n"
proof -
  have "\<lfloor>y\<rfloor> = n" unfolding assms(1) by linarith
  then show ?thesis using assms by (simp add: round_even_def Let_def)
qed

lemma round_even_tie_up:
  assumes "y = of_int n - 1 / 2" "even n"
  shows "round_even y = n"
proof -
  have "\<lfloor>y\<rfloor> = n - 1" unfolding assms(1) by linarith
  then show ?thesis using assms by (simp add: round_even_def Let_def)
qed

lemma round_even_error: "\<bar>of_int (round_even y) - y\<bar> \<le> 1 / 2"
proof -
  have "of_int \<lfloor>y\<rfloor> \<le> y" "y < of_int \<lfloor>y\<rfloor> + 1" by linarith+
  then show ?thesis by (auto simp add: round_even_def Let_def abs_le_iff)
qed

lemma floor_log2:
  fixes a :: real and e :: int
  assumes "2 powr of_int e \<le> a" "a < 2 powr of_int (e + 1)"
  shows "\<lfloor>log 2 a\<rfloor> = e"
proof -
  have "0 < 2 powr real_of_int e" by simp
  then have "0 < a" using assms(1) by linarith
  then show ?thesis using assms by (simp add: floor_log_eq_powr_iff)
qed


lemma two_powr_numeral:
  "(2::real) ^ 52 * 2 powr of_int q = 2 powr of_int (q + 52)"
  "(2::real) ^ 53 * 2 powr of_int q = 2 powr of_int (q + 52 + 1)"
proof -
  have a: "(2::real) ^ 52 = 2 powr real (52::nat)"
    by (rule powr_realpow [symmetric]) simp
  have b: "real (52::nat) + of_int q = of_int (q + 52)" by simp
  have "(2::real) ^ 52 * 2 powr of_int q = 2 powr real (52::nat) * 2 powr of_int q"
    by (simp only: a)
  also have "\<dots> = 2 powr (real (52::nat) + of_int q)" by (rule powr_add [symmetric])
  also have "\<dots> = 2 powr of_int (q + 52)" by (simp only: b)
  finally show "(2::real) ^ 52 * 2 powr of_int q = 2 powr of_int (q + 52)" .
  have a: "(2::real) ^ 53 = 2 powr real (53::nat)"
    by (rule powr_realpow [symmetric]) simp
  have b: "real (53::nat) + of_int q = of_int (q + 52 + 1)" by simp
  have "(2::real) ^ 53 * 2 powr of_int q = 2 powr real (53::nat) * 2 powr of_int q"
    by (simp only: a)
  also have "\<dots> = 2 powr (real (53::nat) + of_int q)" by (rule powr_add [symmetric])
  also have "\<dots> = 2 powr of_int (q + 52 + 1)" by (simp only: b)
  finally show "(2::real) ^ 53 * 2 powr of_int q = 2 powr of_int (q + 52 + 1)" .
qed

lemma ulp_exponent_binade:
  fixes x :: real and q :: int
  assumes q: "- 1074 \<le> q"
    and lo: "2 ^ 52 * 2 powr of_int q \<le> \<bar>x\<bar>"
    and hi: "\<bar>x\<bar> < 2 ^ 53 * 2 powr of_int q"
  shows "ulp_exponent x = q"
proof -
  have "\<lfloor>log 2 \<bar>x\<bar>\<rfloor> = q + 52"
    using lo hi unfolding two_powr_numeral by (rule floor_log2)
  then show ?thesis using q by (simp add: ulp_exponent_def)
qed

lemma ulp_exponent_le:
  fixes x :: real and q :: int
  assumes q: "- 1074 \<le> q" and x: "x \<noteq> 0"
    and hi: "\<bar>x\<bar> < 2 ^ 53 * 2 powr of_int q"
  shows "ulp_exponent x \<le> q"
proof -
  have "log 2 \<bar>x\<bar> < of_int (q + 52 + 1)"
    using hi x unfolding two_powr_numeral by (simp add: log_less_iff)
  then have "\<lfloor>log 2 \<bar>x\<bar>\<rfloor> < q + 52 + 1" by (simp only: floor_less_iff)
  then show ?thesis using q by (simp add: ulp_exponent_def)
qed

lemma ulp_exponent_ge: "- 1074 \<le> ulp_exponent x"
  by (simp add: ulp_exponent_def)

lemma fl_multiple:
  fixes x :: real and k q :: int
  assumes x: "x = of_int k * 2 powr of_int q"
    and le: "ulp_exponent x \<le> q"
    and fin: "\<bar>x\<bar> < 2 ^ 1024"
  shows "fl x = Fin x"
proof (cases "x = 0")
  case True
  then show ?thesis by (simp add: fl_def)
next
  case False
  define e where "e = ulp_exponent x"
  define m where "m = nat (q - e)"
  have q: "real_of_int q = real_of_int e + real m" using le by (simp add: m_def e_def)
  have p: "2 powr real_of_int q = 2 ^ m * 2 powr real_of_int e"
    unfolding q by (simp add: powr_add powr_realpow)
  have "x / 2 powr real_of_int e = real_of_int k * 2 ^ m"
    unfolding x p by simp
  also have "\<dots> = real_of_int (k * 2 ^ m)" by simp
  finally have "round_even (x / 2 powr real_of_int e) = k * 2 ^ m"
    by (simp only: round_even_int)
  then have "real_of_int (round_even (x / 2 powr real_of_int e)) * 2 powr real_of_int e =
      real_of_int k * (2 ^ m * 2 powr real_of_int e)"
    by simp
  also have "\<dots> = x" unfolding x p ..
  finally have "real_of_int (round_even (x / 2 powr real_of_int (ulp_exponent x))) *
      2 powr real_of_int (ulp_exponent x) = x"
    unfolding e_def .
  then show ?thesis using False fin by (simp add: fl_def Let_def)
qed

lemma fl_exact_less:
  fixes x :: real and k q :: int
  assumes x: "x = of_int k * 2 powr of_int q"
    and k: "\<bar>k\<bar> < 2 ^ 53" and q: "- 1074 \<le> q"
    and fin: "\<bar>x\<bar> < 2 ^ 1024"
  shows "fl x = Fin x"
proof (cases "x = 0")
  case True
  then show ?thesis by (simp add: fl_def)
next
  case False
  have "real_of_int \<bar>k\<bar> < real_of_int (2 ^ 53)" using k by (simp only: of_int_less_iff)
  then have "\<bar>real_of_int k\<bar> < 2 ^ 53" by simp
  then have "\<bar>x\<bar> < 2 ^ 53 * 2 powr of_int q"
    unfolding x by (simp add: abs_mult)
  then have "ulp_exponent x \<le> q" by (rule ulp_exponent_le [OF q False])
  then show ?thesis by (rule fl_multiple [OF x _ fin])
qed

lemma fl_exact:
  fixes x :: real and k q :: int
  assumes x: "x = of_int k * 2 powr of_int q"
    and k: "\<bar>k\<bar> \<le> 2 ^ 53" and q: "- 1074 \<le> q"
    and fin: "\<bar>x\<bar> < 2 ^ 1024"
  shows "fl x = Fin x"
proof (cases "\<bar>k\<bar> < 2 ^ 53")
  case True
  then show ?thesis by (rule fl_exact_less [OF x _ q fin])
next
  case False
  with k have k': "k = 2 ^ 53 \<or> k = - (2 ^ 53)" by linarith
  define k2 :: int where "k2 = k div 2"
  have k2: "k = 2 * k2" "\<bar>k2\<bar> < 2 ^ 53" using k' by (auto simp add: k2_def)
  have "x = of_int k2 * 2 powr of_int (q + 1)"
    unfolding x k2(1) by (simp add: powr_add)
  then show ?thesis using k2(2) q fin by (intro fl_exact_less [where k = k2 and q = "q + 1"]) simp_all
qed

lemma fl_int:
  assumes "\<bar>n\<bar> \<le> 2 ^ 53"
  shows "fl (of_int n) = Fin (of_int n)"
proof -
  have "real_of_int \<bar>n\<bar> \<le> real_of_int (2 ^ 53)" using assms by (simp only: of_int_le_iff)
  then have "\<bar>real_of_int n\<bar> \<le> 2 ^ 53" by simp
  then have "\<bar>real_of_int n\<bar> < 2 ^ 1024" by (rule order_le_less_trans) simp
  then show ?thesis using assms by (intro fl_exact [where k = n and q = 0]) simp_all
qed

lemma fl_half_int:
  assumes "\<bar>n\<bar> \<le> 2 ^ 53"
  shows "fl (of_int n / 2) = Fin (of_int n / 2)"
proof (rule fl_exact [where k = n and q = "- 1"])
  show "real_of_int n / 2 = of_int n * 2 powr of_int (- 1)" by (simp add: powr_minus_divide)
  show "\<bar>n\<bar> \<le> 2 ^ 53" by (rule assms)
  show "- 1074 \<le> (- 1 :: int)" by simp
  have "real_of_int \<bar>n\<bar> \<le> real_of_int (2 ^ 53)" using assms by (simp only: of_int_le_iff)
  then have "\<bar>real_of_int n\<bar> \<le> 2 ^ 53" by simp
  then have "\<bar>real_of_int n / 2\<bar> \<le> 2 ^ 53" by simp
  then show "\<bar>real_of_int n / 2\<bar> < 2 ^ 1024" by (rule order_le_less_trans) simp
qed

lemma fl_near:
  fixes x u :: real and n q :: int
  assumes q: "- 1074 \<le> q" and u: "u = 2 powr of_int q"
    and lo: "2 ^ 52 * u \<le> \<bar>x\<bar>" and hi: "\<bar>x\<bar> < 2 ^ 53 * u"
    and near: "\<bar>x - of_int n * u\<bar> < u / 2"
    and fin: "\<bar>of_int n * u\<bar> < 2 ^ 1024"
  shows "fl x = Fin (of_int n * u)"
proof -
  have e: "ulp_exponent x = q" using q lo hi unfolding u by (rule ulp_exponent_binade)
  have u0: "0 < u" by (simp add: u)
  then have "0 < 2 ^ 52 * u" by simp
  then have "0 < \<bar>x\<bar>" using lo by linarith
  then have x0: "x \<noteq> 0" by simp
  have "x / u - of_int n = (x - of_int n * u) / u" using u0 by (simp add: field_simps)
  then have "\<bar>x / u - of_int n\<bar> = \<bar>x - of_int n * u\<bar> / u"
    using u0 by (simp only: abs_divide abs_of_pos)
  also have "\<dots> < 1 / 2" using near u0 by (simp add: field_simps)
  finally have "round_even (x / u) = n" by (rule round_even_near)
  then show ?thesis using x0 fin e by (simp add: fl_def Let_def u [symmetric])
qed

lemma fl_tie:
  fixes x u :: real and n q :: int
  assumes q: "- 1074 \<le> q" and u: "u = 2 powr of_int q"
    and lo: "2 ^ 52 * u \<le> \<bar>x\<bar>" and hi: "\<bar>x\<bar> < 2 ^ 53 * u"
    and tie: "x = (of_int n + 1 / 2) * u \<or> x = (of_int n - 1 / 2) * u" and even: "even n"
    and fin: "\<bar>of_int n * u\<bar> < 2 ^ 1024"
  shows "fl x = Fin (of_int n * u)"
proof -
  have e: "ulp_exponent x = q" using q lo hi unfolding u by (rule ulp_exponent_binade)
  have u0: "0 < u" by (simp add: u)
  then have "0 < 2 ^ 52 * u" by simp
  then have "0 < \<bar>x\<bar>" using lo by linarith
  then have x0: "x \<noteq> 0" by simp
  have "x / u = of_int n + 1 / 2 \<or> x / u = of_int n - 1 / 2" using u0 tie by auto
  then have "round_even (x / u) = n"
    using even round_even_tie_down [of "x / u" n] round_even_tie_up [of "x / u" n] by blast
  then show ?thesis using x0 fin e by (simp add: fl_def Let_def u [symmetric])
qed

text \<open>The rounded operations on finite operands, and the whole numbers up to \<open>2\<^sup>5\<^sup>3\<close>.\<close>

lemma dops_Fin [simp]:
  "dadd (Fin a) (Fin b) = fl (a + b)"
  "dsub (Fin a) (Fin b) = fl (a - b)"
  "dmul (Fin a) (Fin b) = fl (a * b)"
  "b \<noteq> 0 \<Longrightarrow> ddiv (Fin a) (Fin b) = fl (a / b)"
  "0 \<le> a \<Longrightarrow> dsqrt (Fin a) = fl (sqrt a)"
  by (simp_all add: dadd_def dsub_def dmul_def ddiv_def dsqrt_def minus_number_def)

lemma fl_numeral [simp]:
  "fl 0 = Fin 0" "fl 1 = Fin 1"
  "(numeral n :: int) \<le> 2 ^ 53 \<Longrightarrow> fl (numeral n) = Fin (numeral n)"
  "(numeral n :: int) \<le> 2 ^ 53 \<Longrightarrow> fl (- numeral n) = Fin (- numeral n)"
  using fl_int [of 0] fl_int [of 1] fl_int [of "numeral n"] fl_int [of "- numeral n"]
  by simp_all

lemma fl_sqrt_near:
  fixes X u :: real and n q :: int
  assumes q: "- 1074 \<le> q" and u: "u = 2 powr of_int q"
    and lo: "(2 ^ 52 * u)\<^sup>2 \<le> X" and hi: "X < (2 ^ 53 * u)\<^sup>2"
    and below: "((of_int n - 1 / 2) * u)\<^sup>2 < X" and above: "X < ((of_int n + 1 / 2) * u)\<^sup>2"
    and n: "1 \<le> n"
    and fin: "\<bar>of_int n * u\<bar> < 2 ^ 1024"
  shows "fl (sqrt X) = Fin (of_int n * u)"
proof (rule fl_near [OF q u _ _ _ fin])
  have u0: "0 < u" by (simp add: u)
  have X0: "0 \<le> X" using lo by (rule order_trans [rotated]) simp
  have s0: "0 \<le> sqrt X" using X0 by simp
  have "2 ^ 52 * u \<le> sqrt X" using lo by (rule real_le_rsqrt)
  then show "2 ^ 52 * u \<le> \<bar>sqrt X\<bar>" using s0 by simp
  have "sqrt X < 2 ^ 53 * u" using hi u0 by (intro real_less_lsqrt) simp_all
  then show "\<bar>sqrt X\<bar> < 2 ^ 53 * u" using s0 by simp
  have a: "(of_int n - 1 / 2) * u < sqrt X" using below by (rule real_less_rsqrt)
  have "0 \<le> (real_of_int n + 1 / 2) * u" using n u0 by simp
  then have b: "sqrt X < (of_int n + 1 / 2) * u" using above by (intro real_less_lsqrt)
  define m where "m = real_of_int n * u"
  have "(real_of_int n - 1 / 2) * u = m - u / 2" "(real_of_int n + 1 / 2) * u = m + u / 2"
    by (simp_all add: m_def algebra_simps)
  with a b have "m - u / 2 < sqrt X" "sqrt X < m + u / 2" by simp_all
  then have "\<bar>sqrt X - m\<bar> < u / 2" by linarith
  then show "\<bar>sqrt X - of_int n * u\<bar> < u / 2" by (simp only: m_def)
qed

section \<open>Point in circle\<close>

lemma PointInCircle_Fin:
  "TSMT_PointInCircle (Fin px) (Fin py) (Fin xc) (Fin yc) (Fin r) \<longleftrightarrow>
    yc - r \<le> py \<and> py \<le> yc + r \<and> xc - r \<le> px \<and> px \<le> xc + r \<and>
    (px - xc) * (px - xc) + (py - yc) * (py - yc) \<le> r * r"
  by (auto simp add: TSMT_PointInCircle_def Let_def)

text \<open>
  In exact arithmetic, for a finite point, a finite centre and a radius \<open>r \<ge> 0\<close>, the
  function is true exactly when the Euclidean distance from the point to the centre is
  at most \<open>r\<close>; the two bounding-box tests never change the result.
\<close>

lemma PointInCircle_exact:
  assumes r: "0 \<le> r"
  shows "(TSMT_PointInCircle (Fin px) (Fin py) (Fin xc) (Fin yc) (Fin r) \<longleftrightarrow>
            distance px py xc yc \<le> r) \<and>
         (TSMT_PointInCircle (Fin px) (Fin py) (Fin xc) (Fin yc) (Fin r) \<longleftrightarrow>
            (px - xc) * (px - xc) + (py - yc) * (py - yc) \<le> r * r)"
proof -
  have box: "yc - r \<le> py \<and> py \<le> yc + r \<and> xc - r \<le> px \<and> px \<le> xc + r"
    if le: "(px - xc) * (px - xc) + (py - yc) * (py - yc) \<le> r * r"
  proof -
    have x0: "0 \<le> (px - xc) * (px - xc)" and y0: "0 \<le> (py - yc) * (py - yc)"
      by simp_all
    have "\<not> (r < py - yc \<or> py - yc < - r)"
      using square_gt_outside [OF r, of "py - yc"] le x0 by linarith
    moreover have "\<not> (r < px - xc \<or> px - xc < - r)"
      using square_gt_outside [OF r, of "px - xc"] le y0 by linarith
    ultimately show ?thesis by linarith
  qed
  have sq: "TSMT_PointInCircle (Fin px) (Fin py) (Fin xc) (Fin yc) (Fin r) \<longleftrightarrow>
      (px - xc) * (px - xc) + (py - yc) * (py - yc) \<le> r * r"
    using box by (auto simp add: PointInCircle_Fin)
  show ?thesis using sq distance_le_iff [OF r, of px py xc yc] by auto
qed

text \<open>
  On whole numbers the rounded operations are exact as long as the result stays within
  \<open>2\<^sup>5\<^sup>3\<close>. For whole coordinates and a whole radius up to \<open>2\<^sup>2\<^sup>5\<close> no operation of
  \<^verbatim>\<open>TSMT$PointInCircle\<close> rounds, and the function in double precision is the function in
  exact arithmetic.
\<close>

lemma dops_int:
  fixes a b :: int
  shows "\<bar>a + b\<bar> \<le> 2 ^ 53 \<Longrightarrow> dadd (Fin (of_int a)) (Fin (of_int b)) = Fin (of_int (a + b))"
    and "\<bar>a - b\<bar> \<le> 2 ^ 53 \<Longrightarrow> dsub (Fin (of_int a)) (Fin (of_int b)) = Fin (of_int (a - b))"
    and "\<bar>a * b\<bar> \<le> 2 ^ 53 \<Longrightarrow> dmul (Fin (of_int a)) (Fin (of_int b)) = Fin (of_int (a * b))"
  using fl_int [of "a + b"] fl_int [of "a - b"] fl_int [of "a * b"] by simp_all

lemma square_bound:
  fixes a :: int
  assumes "\<bar>a\<bar> \<le> 2 ^ 26"
  shows "a * a \<le> 2 ^ 52" "0 \<le> a * a"
proof -
  have "\<bar>a\<bar> * \<bar>a\<bar> \<le> 2 ^ 26 * 2 ^ 26"
    using assms by (intro mult_mono) simp_all
  then show "a * a \<le> 2 ^ 52" by (simp add: abs_mult_self_eq)
  show "0 \<le> a * a" by simp
qed

lemma PointInCircle_double_exact:
  fixes px py xc yc r :: int
  assumes r: "0 \<le> r" "r \<le> 2 ^ 25"
    and p: "\<bar>px\<bar> \<le> 2 ^ 25" "\<bar>py\<bar> \<le> 2 ^ 25"
    and c: "\<bar>xc\<bar> \<le> 2 ^ 25" "\<bar>yc\<bar> \<le> 2 ^ 25"
  shows "TSMT_PointInCircle_double (Fin (of_int px)) (Fin (of_int py)) (Fin (of_int xc))
           (Fin (of_int yc)) (Fin (of_int r)) =
         TSMT_PointInCircle (Fin (of_int px)) (Fin (of_int py)) (Fin (of_int xc))
           (Fin (of_int yc)) (Fin (of_int r))"
proof -
  have b1: "\<bar>yc + r\<bar> \<le> 2 ^ 53" "\<bar>yc - r\<bar> \<le> 2 ^ 53" "\<bar>xc + r\<bar> \<le> 2 ^ 53" "\<bar>xc - r\<bar> \<le> 2 ^ 53"
    using r c by simp_all
  have d: "\<bar>px - xc\<bar> \<le> 2 ^ 26" "\<bar>py - yc\<bar> \<le> 2 ^ 26" "\<bar>r\<bar> \<le> 2 ^ 26"
    using r p c by simp_all
  have b2: "\<bar>px - xc\<bar> \<le> 2 ^ 53" "\<bar>py - yc\<bar> \<le> 2 ^ 53"
    using d by simp_all
  have b3: "\<bar>(px - xc) * (px - xc)\<bar> \<le> 2 ^ 53" "\<bar>(py - yc) * (py - yc)\<bar> \<le> 2 ^ 53"
    "\<bar>r * r\<bar> \<le> 2 ^ 53"
    using square_bound [OF d(1)] square_bound [OF d(2)] square_bound [OF d(3)] by simp_all
  have b4: "\<bar>(px - xc) * (px - xc) + (py - yc) * (py - yc)\<bar> \<le> 2 ^ 53"
    using square_bound [OF d(1)] square_bound [OF d(2)] by simp
  show ?thesis
    unfolding TSMT_PointInCircle_double_def TSMT_PointInCircle_def Let_def
      dops_int(1) [OF b1(1)] dops_int(2) [OF b1(2)] dops_int(1) [OF b1(3)] dops_int(2) [OF b1(4)]
      dops_int(2) [OF b2(1)] dops_int(2) [OF b2(2)]
      dops_int(3) [OF b3(1)] dops_int(3) [OF b3(2)] dops_int(3) [OF b3(3)]
      dops_int(1) [OF b4]
    by simp
qed

text \<open>
  Claim C1 as stated fails on doubles, in each of its three parts. At the point
  \<open>(5, 2\<^sup>-\<^sup>3\<^sup>0)\<close> and the circle of radius 5 about the origin the sum \<open>25 + 2\<^sup>-\<^sup>6\<^sup>0\<close> rounds
  to 25 and the function is true, while the distance is more than 5. At the point
  \<open>(0, 1)\<close> and the circle of radius \<open>2\<^sup>5\<^sup>3\<close> about \<open>(0, -2\<^sup>5\<^sup>3)\<close> the first bounding-box
  test gives false, while the comparison of the squares that it cuts short is true (the
  difference \<open>1 + 2\<^sup>5\<^sup>3\<close> rounds to \<open>2\<^sup>5\<^sup>3\<close>). The point \<open>(268545893, 268388724)\<close> lies
  exactly on the circle of radius 379670125 about the origin, and the function is false:
  the sum of the rounded squares rounds up and the square of the radius rounds down.
\<close>

theorem PointInCircle_double_rounding:
  "TSMT_PointInCircle_double (Fin 5) (Fin (1 / 2 ^ 30)) (Fin 0) (Fin 0) (Fin 5) \<and>
   5 < distance 5 (1 / 2 ^ 30) 0 0 \<and>
   \<not> TSMT_PointInCircle_double (Fin 0) (Fin 1) (Fin 0) (Fin (- (2 ^ 53))) (Fin (2 ^ 53)) \<and>
   (let dx = dsub (Fin 0) (Fin 0); dy = dsub (Fin 1) (Fin (- (2 ^ 53)))
    in dadd (dmul dx dx) (dmul dy dy) \<le> dmul (Fin (2 ^ 53)) (Fin (2 ^ 53))) \<and>
   distance 268545893 268388724 0 0 = 379670125 \<and>
   \<not> TSMT_PointInCircle_double (Fin 268545893) (Fin 268388724) (Fin 0) (Fin 0) (Fin 379670125)"
proof -
  have a1: "fl (1 / 2 ^ 30) = Fin (1 / 2 ^ 30)"
    using fl_exact [where k = 1 and q = "- 30" and x = "1 / 2 ^ 30"]
    by (simp add: powr_minus_divide)
  have a2: "fl (1 / 2 ^ 60) = Fin (1 / 2 ^ 60)"
    using fl_exact [where k = 1 and q = "- 60" and x = "1 / 2 ^ 60"]
    by (simp add: powr_minus_divide)
  have a3: "fl (25 + 1 / 2 ^ 60) = Fin 25"
    using fl_near [where q = "- 48" and u = "1 / 2 ^ 48" and n = "25 * 2 ^ 48"
        and x = "25 + 1 / 2 ^ 60"]
    by (simp add: powr_minus_divide)
  have A: "TSMT_PointInCircle_double (Fin 5) (Fin (1 / 2 ^ 30)) (Fin 0) (Fin 0) (Fin 5)"
    using a1 a2 a3 by (simp add: TSMT_PointInCircle_double_def Let_def)
  have "sqrt (5\<^sup>2) < sqrt (5\<^sup>2 + (1 / 2 ^ 30)\<^sup>2)"
    by (simp only: real_sqrt_less_iff) simp
  then have B: "5 < distance 5 (1 / 2 ^ 30) 0 0"
    by (simp add: distance_def)
  have c1: "fl (1 + 2 ^ 53) = Fin (2 ^ 53)"
    using fl_tie [where q = 1 and u = 2 and n = "2 ^ 52" and x = "1 + 2 ^ 53"]
    by simp
  have c2: "fl (2 ^ 106) = Fin (2 ^ 106)"
    using fl_exact [where k = 1 and q = 106 and x = "2 ^ 106"]
    by simp
  have C: "\<not> TSMT_PointInCircle_double (Fin 0) (Fin 1) (Fin 0) (Fin (- (2 ^ 53))) (Fin (2 ^ 53))"
    by (simp add: TSMT_PointInCircle_double_def Let_def)
  have D: "(let dx = dsub (Fin 0) (Fin 0); dy = dsub (Fin 1) (Fin (- (2 ^ 53)))
    in dadd (dmul dx dx) (dmul dy dy) \<le> dmul (Fin (2 ^ 53)) (Fin (2 ^ 53)))"
    using c1 c2 by (simp add: Let_def)
  have "sqrt (268545893\<^sup>2 + 268388724\<^sup>2) = sqrt (379670125\<^sup>2)"
    by (simp only: real_sqrt_eq_iff) simp
  then have E: "distance 268545893 268388724 0 0 = 379670125"
    by (simp add: distance_def)
  have e1: "fl (268545893 * 268545893) = Fin 72116896647167456"
    using fl_near [where q = 4 and u = 16 and n = 4507306040447966
        and x = "268545893 * 268545893"]
    by simp
  have e2: "fl (268388724 * 268388724) = Fin 72032507170348176"
    using fl_near [where q = 3 and u = 8 and n = 9004063396293522
        and x = "268388724 * 268388724"]
    by simp
  have e3: "fl (72116896647167456 + 72032507170348176) = Fin 144149403817515648"
    using fl_tie [where q = 5 and u = 32 and n = 4504668869297364
        and x = "72116896647167456 + 72032507170348176"]
    by simp
  have e4: "fl (379670125 * 379670125) = Fin 144149403817515616"
    using fl_near [where q = 5 and u = 32 and n = 4504668869297363
        and x = "379670125 * 379670125"]
    by simp
  have F: "\<not> TSMT_PointInCircle_double (Fin 268545893) (Fin 268388724) (Fin 0) (Fin 0)
      (Fin 379670125)"
    using e1 e2 e3 e4 by (simp add: TSMT_PointInCircle_double_def Let_def)
  show ?thesis using A B C D E F by blast
qed

text \<open>
  Claim C1, amended. For whole coordinates and a whole radius \<open>r \<ge> 0\<close>, all of
  magnitude at most \<open>2\<^sup>2\<^sup>5\<close>, \<^verbatim>\<open>TSMT$PointInCircle\<close> in double precision is true exactly
  when the Euclidean distance from the point to the centre is at most \<open>r\<close>. The two
  bounding-box tests never change the result: it is the comparison of the squared
  distance with the squared radius. A point at distance exactly \<open>r\<close> counts as inside.
\<close>

theorem PointInCircle_double_integers:
  fixes px py xc yc r :: int
  assumes r: "0 \<le> r" "r \<le> 2 ^ 25"
    and p: "\<bar>px\<bar> \<le> 2 ^ 25" "\<bar>py\<bar> \<le> 2 ^ 25"
    and c: "\<bar>xc\<bar> \<le> 2 ^ 25" "\<bar>yc\<bar> \<le> 2 ^ 25"
  shows "(TSMT_PointInCircle_double (Fin (of_int px)) (Fin (of_int py)) (Fin (of_int xc))
            (Fin (of_int yc)) (Fin (of_int r)) \<longleftrightarrow>
            distance (of_int px) (of_int py) (of_int xc) (of_int yc) \<le> of_int r) \<and>
         (TSMT_PointInCircle_double (Fin (of_int px)) (Fin (of_int py)) (Fin (of_int xc))
            (Fin (of_int yc)) (Fin (of_int r)) \<longleftrightarrow>
            (px - xc) * (px - xc) + (py - yc) * (py - yc) \<le> r * r) \<and>
         (distance (of_int px) (of_int py) (of_int xc) (of_int yc) = of_int r \<longrightarrow>
            TSMT_PointInCircle_double (Fin (of_int px)) (Fin (of_int py)) (Fin (of_int xc))
              (Fin (of_int yc)) (Fin (of_int r)))"
proof -
  have r0: "0 \<le> real_of_int r" using r(1) by simp
  have sq: "real_of_int px - real_of_int xc = real_of_int (px - xc)"
    "real_of_int py - real_of_int yc = real_of_int (py - yc)" by simp_all
  have "real_of_int (px - xc) * real_of_int (px - xc) +
      real_of_int (py - yc) * real_of_int (py - yc) \<le> real_of_int r * real_of_int r \<longleftrightarrow>
      (px - xc) * (px - xc) + (py - yc) * (py - yc) \<le> r * r"
    by (simp only: of_int_mult [symmetric] of_int_add [symmetric] of_int_le_iff)
  then show ?thesis
    unfolding PointInCircle_double_exact [OF r p c]
    using PointInCircle_exact [OF r0, of "of_int px" "of_int py" "of_int xc" "of_int yc"]
    unfolding sq by auto
qed

text \<open>
  The point \<open>(3, 4)\<close> is at distance 5 from the origin: it is inside the circle of radius
  5 and outside the circle of radius 4.
\<close>

theorem PointInCircle_double_integers_witness:
  "distance 3 4 0 0 = 5 \<and>
   TSMT_PointInCircle_double (Fin 3) (Fin 4) (Fin 0) (Fin 0) (Fin 5) \<and>
   \<not> TSMT_PointInCircle_double (Fin 3) (Fin 4) (Fin 0) (Fin 0) (Fin 4)"
proof -
  have "sqrt 25 = sqrt (5\<^sup>2)" by simp
  then have d: "distance 3 4 0 0 = 5"
    unfolding distance_def by (simp del: real_sqrt_abs)
  show ?thesis
    using PointInCircle_double_integers [of 5 3 4 0 0] PointInCircle_double_integers [of 4 3 4 0 0] d
    by simp
qed

section \<open>The quadrant of a point\<close>

lemma half_Fin: "Fin 0.5 * (Fin a + Fin b) = Fin ((a + b) / 2)"
  by simp

lemma getQuadrant_Fin:
  "TSMT_getQuadrant (Fin px) (Fin py) (Fin left) (Fin top') (Fin right) (Fin bottom) =
    (if quadrant_region 1 px py left top' right bottom then 1
     else if quadrant_region 2 px py left top' right bottom then 2
     else if quadrant_region 3 px py left top' right bottom then 3
     else if quadrant_region 4 px py left top' right bottom then 4 else 0)"
  unfolding TSMT_getQuadrant_def quadrant_region_def Let_def half_Fin
  by (cases "top' \<le> bottom") (simp_all add: conj_commute)

lemma in_rect_regions:
  assumes lr: "left \<le> right"
  shows "in_closed_rect px py left top' right bottom \<longleftrightarrow>
     (quadrant_region 1 px py left top' right bottom \<or>
      quadrant_region 2 px py left top' right bottom \<or>
      quadrant_region 3 px py left top' right bottom \<or>
      quadrant_region 4 px py left top' right bottom)"
proof -
  define xc where "xc = (left + right) / 2"
  define yc where "yc = (bottom + top') / 2"
  have x: "left \<le> xc" "xc \<le> right" using lr by (simp_all add: xc_def)
  have y: "top' \<le> bottom \<Longrightarrow> top' \<le> yc \<and> yc \<le> bottom"
          "\<not> top' \<le> bottom \<Longrightarrow> bottom \<le> yc \<and> yc \<le> top'"
    by (simp_all add: yc_def)
  show ?thesis
  proof (cases "top' \<le> bottom")
    case True
    with x y(1) show ?thesis
      unfolding in_closed_rect_def quadrant_region_def Let_def
        xc_def [symmetric] yc_def [symmetric]
      by (simp add: min_def max_def) linarith
  next
    case False
    with x y(2) show ?thesis
      unfolding in_closed_rect_def quadrant_region_def Let_def
        xc_def [symmetric] yc_def [symmetric]
      by (simp add: min_def max_def) linarith
  qed
qed

text \<open>
  In exact arithmetic, for a finite rectangle with \<open>left \<le> right\<close> and a finite point,
  the function returns 0 exactly when the point lies outside the closed rectangle, and
  for a point inside it returns the lowest-numbered closed quadrant region that holds
  the point.
\<close>

lemma getQuadrant_exact:
  assumes lr: "left \<le> right"
  shows "(TSMT_getQuadrant (Fin px) (Fin py) (Fin left) (Fin top') (Fin right) (Fin bottom) = 0
            \<longleftrightarrow> \<not> in_closed_rect px py left top' right bottom) \<and>
         (in_closed_rect px py left top' right bottom \<longrightarrow>
           (let q = TSMT_getQuadrant (Fin px) (Fin py) (Fin left) (Fin top') (Fin right)
                      (Fin bottom)
            in q \<in> {1, 2, 3, 4} \<and> quadrant_region q px py left top' right bottom \<and>
               (\<forall>q'. 1 \<le> q' \<and> q' < q \<longrightarrow>
                  \<not> quadrant_region q' px py left top' right bottom)))"
proof -
  define R where "R q = quadrant_region q px py left top' right bottom" for q
  define Q where
    "Q = TSMT_getQuadrant (Fin px) (Fin py) (Fin left) (Fin top') (Fin right) (Fin bottom)"
  have Q: "Q = (if R 1 then 1 else if R 2 then 2 else if R 3 then 3 else if R 4 then 4 else 0)"
    unfolding R_def Q_def by (rule getQuadrant_Fin)
  have I: "in_closed_rect px py left top' right bottom \<longleftrightarrow> R 1 \<or> R 2 \<or> R 3 \<or> R 4"
    unfolding R_def by (rule in_rect_regions [OF lr])
  have zero: "Q = 0 \<longleftrightarrow> \<not> (R 1 \<or> R 2 \<or> R 3 \<or> R 4)"
    unfolding Q by simp
  have mem: "Q \<in> {1, 2, 3, 4}" if "R 1 \<or> R 2 \<or> R 3 \<or> R 4"
    using that unfolding Q by auto
  have reg: "R Q" if "R 1 \<or> R 2 \<or> R 3 \<or> R 4"
    using that unfolding Q by auto
  have least: "\<not> R q'" if q': "1 \<le> q'" "q' < Q" for q'
  proof (cases "R 1")
    case True
    then have "Q = 1" unfolding Q by simp
    with q' show ?thesis by simp
  next
    case n1: False
    show ?thesis
    proof (cases "R 2")
      case True
      with n1 have "Q = 2" unfolding Q by simp
      with q' have "q' = 1" by simp
      with n1 show ?thesis by simp
    next
      case n2: False
      show ?thesis
      proof (cases "R 3")
        case True
        with n1 n2 have "Q = 3" unfolding Q by simp
        with q' have "q' = 1 \<or> q' = 2" by arith
        with n1 n2 show ?thesis by auto
      next
        case n3: False
        have "Q \<le> 4" unfolding Q by simp
        with q' have "q' = 1 \<or> q' = 2 \<or> q' = 3" by arith
        with n1 n2 n3 show ?thesis by auto
      qed
    qed
  qed
  show ?thesis
    unfolding Let_def Q_def [symmetric] R_def [symmetric] I
    using zero mem reg least by blast
qed

text \<open>
  For whole corners of magnitude at most \<open>2\<^sup>5\<^sup>2\<close> the two sums and their halves are
  doubles, the centre is computed without rounding, and the function in double precision
  is the function in exact arithmetic, for every finite point.
\<close>

lemma half_int_double:
  fixes a b :: int
  assumes "\<bar>a\<bar> \<le> 2 ^ 52" "\<bar>b\<bar> \<le> 2 ^ 52"
  shows "dmul (Fin 0.5) (dadd (Fin (of_int a)) (Fin (of_int b))) =
    Fin 0.5 * (Fin (of_int a) + Fin (of_int b))"
proof -
  have s: "\<bar>a + b\<bar> \<le> 2 ^ 53" using assms by simp
  have "dmul (Fin 0.5) (dadd (Fin (of_int a)) (Fin (of_int b))) =
      dmul (Fin 0.5) (Fin (of_int (a + b)))"
    by (simp only: dops_int(1) [OF s])
  also have "\<dots> = fl (of_int (a + b) / 2)" by simp
  also have "\<dots> = Fin (of_int (a + b) / 2)" by (rule fl_half_int [OF s])
  also have "\<dots> = Fin 0.5 * (Fin (of_int a) + Fin (of_int b))" by simp
  finally show ?thesis .
qed

lemma getQuadrant_double_exact:
  fixes left top' right bottom :: int
  assumes "\<bar>left\<bar> \<le> 2 ^ 52" "\<bar>right\<bar> \<le> 2 ^ 52" "\<bar>top'\<bar> \<le> 2 ^ 52" "\<bar>bottom\<bar> \<le> 2 ^ 52"
  shows "TSMT_getQuadrant_double px py (Fin (of_int left)) (Fin (of_int top'))
           (Fin (of_int right)) (Fin (of_int bottom)) =
         TSMT_getQuadrant px py (Fin (of_int left)) (Fin (of_int top'))
           (Fin (of_int right)) (Fin (of_int bottom))"
  unfolding TSMT_getQuadrant_double_def TSMT_getQuadrant_def
    half_int_double [OF assms(1,2)] half_int_double [OF assms(4,3)] ..

text \<open>
  Claim C5 as stated fails on doubles. For the rectangle with the corners \<open>(1, 0)\<close> and
  \<open>(2\<^sup>5\<^sup>3, 100)\<close> the sum \<open>1 + 2\<^sup>5\<^sup>3\<close> rounds to \<open>2\<^sup>5\<^sup>3\<close> and the computed centre is
  \<open>2\<^sup>5\<^sup>2\<close>: the point \<open>(2\<^sup>5\<^sup>2, 10)\<close>, which lies left of the centre \<open>2\<^sup>5\<^sup>2 + 1/2\<close>, in
  region 4 and not in region 1, gets the result 1. The same happens with small corners
  that are not whole: for the doubles nearest to \<open>0.1\<close> and \<open>0.7\<close> as left and right
  edge the computed centre is below the centre, and a point at the computed centre gets
  the result 1 while it lies in region 4 and not in region 1.
\<close>

theorem getQuadrant_double_rounding:
  "(1::real) \<le> 2 ^ 53 \<and>
   TSMT_getQuadrant_double (Fin (2 ^ 52)) (Fin 10) (Fin 1) (Fin 0) (Fin (2 ^ 53)) (Fin 100) = 1 \<and>
   \<not> quadrant_region 1 (2 ^ 52) 10 1 0 (2 ^ 53) 100 \<and>
   quadrant_region 4 (2 ^ 52) 10 1 0 (2 ^ 53) 100 \<and>
   (3602879701896397 / 36028797018963968 :: real) \<le> 3152519739159347 / 4503599627370496 \<and>
   dlit 0.1 = Fin (3602879701896397 / 36028797018963968) \<and>
   dlit 0.7 = Fin (3152519739159347 / 4503599627370496) \<and>
   TSMT_getQuadrant_double (Fin (7205759403792793 / 18014398509481984)) (Fin 10)
     (Fin (3602879701896397 / 36028797018963968)) (Fin 0)
     (Fin (3152519739159347 / 4503599627370496)) (Fin 100) = 1 \<and>
   \<not> quadrant_region 1 (7205759403792793 / 18014398509481984) 10
     (3602879701896397 / 36028797018963968) 0 (3152519739159347 / 4503599627370496) 100 \<and>
   quadrant_region 4 (7205759403792793 / 18014398509481984) 10
     (3602879701896397 / 36028797018963968) 0 (3152519739159347 / 4503599627370496) 100"
proof -
  have a1: "fl (1 + 2 ^ 53) = Fin (2 ^ 53)"
    using fl_tie [where q = 1 and u = 2 and n = "2 ^ 52" and x = "1 + 2 ^ 53"]
    by simp
  have a2: "fl (2 ^ 52) = Fin (2 ^ 52)"
    using fl_int [of "2 ^ 52"] by simp
  have A: "TSMT_getQuadrant_double (Fin (2 ^ 52)) (Fin 10) (Fin 1) (Fin 0) (Fin (2 ^ 53))
      (Fin 100) = 1"
    using a1 a2 by (simp add: TSMT_getQuadrant_double_def Let_def)
  have B: "\<not> quadrant_region 1 (2 ^ 52) 10 1 0 (2 ^ 53) 100"
    "quadrant_region 4 (2 ^ 52) 10 1 0 (2 ^ 53) 100"
    by (simp_all add: quadrant_region_def Let_def)
  have l1: "dlit 0.1 = Fin (3602879701896397 / 36028797018963968)"
    unfolding dlit_def
    using fl_near [where q = "- 56" and u = "1 / 2 ^ 56" and n = 7205759403792794 and x = "0.1"]
    by (simp add: powr_minus_divide)
  have l2: "dlit 0.7 = Fin (3152519739159347 / 4503599627370496)"
    unfolding dlit_def
    using fl_near [where q = "- 53" and u = "1 / 2 ^ 53" and n = 6305039478318694 and x = "0.7"]
    by (simp add: powr_minus_divide)
  have c1: "fl (3602879701896397 / 36028797018963968 + 3152519739159347 / 4503599627370496) =
      Fin (7205759403792793 / 9007199254740992)"
    using fl_near [where q = "- 53" and u = "1 / 2 ^ 53" and n = 7205759403792793
        and x = "3602879701896397 / 36028797018963968 + 3152519739159347 / 4503599627370496"]
    by (simp add: powr_minus_divide)
  have c2: "fl (7205759403792793 / 18014398509481984) = Fin (7205759403792793 / 18014398509481984)"
    using fl_exact [where k = 7205759403792793 and q = "- 54"
        and x = "7205759403792793 / 18014398509481984"]
    by (simp add: powr_minus_divide)
  have c3: "fl 50 = Fin 50" by simp
  have C: "TSMT_getQuadrant_double (Fin (7205759403792793 / 18014398509481984)) (Fin 10)
     (Fin (3602879701896397 / 36028797018963968)) (Fin 0)
     (Fin (3152519739159347 / 4503599627370496)) (Fin 100) = 1"
    unfolding TSMT_getQuadrant_double_def Let_def dops_Fin c1
    using c2 by simp
  have D: "\<not> quadrant_region 1 (7205759403792793 / 18014398509481984) 10
     (3602879701896397 / 36028797018963968) 0 (3152519739159347 / 4503599627370496) 100"
    "quadrant_region 4 (7205759403792793 / 18014398509481984) 10
     (3602879701896397 / 36028797018963968) 0 (3152519739159347 / 4503599627370496) 100"
    by (simp_all add: quadrant_region_def Let_def)
  show ?thesis using A B l1 l2 C D by simp
qed

text \<open>
  Claim C5, amended. For a rectangle with whole corners of magnitude at most \<open>2\<^sup>5\<^sup>2\<close>
  and \<open>left \<le> right\<close>, and every finite point, \<^verbatim>\<open>TSMT$getQuadrant\<close> in double precision
  returns 0 exactly when the point lies outside the closed rectangle. For a point
  inside, the result \<open>q\<close> is one of 1, 2, 3, 4, the point lies in the closed region of
  quadrant \<open>q\<close> (right or left half, half next to the top or to the bottom, in the sense
  found by comparing top and bottom), and it lies in no region of a smaller number: on
  a dividing line the lower-numbered of the adjacent quadrants is returned.
\<close>

theorem getQuadrant_double_integers:
  fixes left top' right bottom :: int
  assumes lr: "left \<le> right"
    and b: "\<bar>left\<bar> \<le> 2 ^ 52" "\<bar>right\<bar> \<le> 2 ^ 52" "\<bar>top'\<bar> \<le> 2 ^ 52" "\<bar>bottom\<bar> \<le> 2 ^ 52"
  shows "(TSMT_getQuadrant_double (Fin px) (Fin py) (Fin (of_int left)) (Fin (of_int top'))
            (Fin (of_int right)) (Fin (of_int bottom)) = 0
            \<longleftrightarrow> \<not> in_closed_rect px py (of_int left) (of_int top') (of_int right)
                   (of_int bottom)) \<and>
         (in_closed_rect px py (of_int left) (of_int top') (of_int right) (of_int bottom) \<longrightarrow>
           (let q = TSMT_getQuadrant_double (Fin px) (Fin py) (Fin (of_int left))
                      (Fin (of_int top')) (Fin (of_int right)) (Fin (of_int bottom))
            in q \<in> {1, 2, 3, 4} \<and>
               quadrant_region q px py (of_int left) (of_int top') (of_int right)
                 (of_int bottom) \<and>
               (\<forall>q'. 1 \<le> q' \<and> q' < q \<longrightarrow>
                  \<not> quadrant_region q' px py (of_int left) (of_int top') (of_int right)
                      (of_int bottom))))"
proof -
  have "real_of_int left \<le> real_of_int right" using lr by simp
  then show ?thesis
    unfolding getQuadrant_double_exact [OF b] by (rule getQuadrant_exact)
qed

text \<open>
  The centre of the rectangle lies on both dividing lines and in all four regions; the
  result there is 1. A point outside the rectangle gives 0.
\<close>

theorem getQuadrant_double_integers_witness:
  "in_closed_rect 50 50 0 0 100 100 \<and>
   quadrant_region 4 50 50 0 0 100 100 \<and>
   TSMT_getQuadrant_double (Fin 50) (Fin 50) (Fin 0) (Fin 0) (Fin 100) (Fin 100) = 1 \<and>
   \<not> in_closed_rect 101 50 0 0 100 100 \<and>
   TSMT_getQuadrant_double (Fin 101) (Fin 50) (Fin 0) (Fin 0) (Fin 100) (Fin 100) = 0"
  using getQuadrant_double_integers [of 0 100 0 100 50 50]
    getQuadrant_double_integers [of 0 100 0 100 101 50]
  by (simp add: in_closed_rect_def quadrant_region_def TSMT_getQuadrant_double_def Let_def)

section \<open>Arithmetic with NaN\<close>

lemma NaN_absorb [simp]:
  "u + NaN = NaN" "NaN + u = NaN" "u * NaN = NaN" "NaN * u = NaN"
  "u - NaN = NaN" "NaN - u = NaN" "u / NaN = NaN" "NaN / u = NaN"
  by (cases u; simp add: minus_number_def)+

lemma NaN_compare [simp]:
  "\<not> u < NaN" "\<not> NaN < u" "\<not> u \<le> NaN" "\<not> NaN \<le> u"
  by (cases u; simp)+

lemma self_minus: "zero_or_NaN (u - u)"
  by (cases u) (simp_all add: zero_or_NaN_def minus_number_def)

lemma times_zero_or_NaN: "zero_or_NaN u \<Longrightarrow> zero_or_NaN (v * u)"
  by (cases v) (auto simp add: zero_or_NaN_def)

lemma plus_zero_or_NaN: "zero_or_NaN u \<Longrightarrow> zero_or_NaN v \<Longrightarrow> zero_or_NaN (u + v)"
  by (auto simp add: zero_or_NaN_def)

lemma divide_zero_or_NaN: "zero_or_NaN u \<Longrightarrow> zero_or_NaN v \<Longrightarrow> u / v = NaN"
  by (auto simp add: zero_or_NaN_def)

section \<open>Circle and degenerate segment\<close>

text \<open>
  Claim C10. For a segment whose two endpoints are the same point,
  \<^verbatim>\<open>TSMT$CircleSegmentIntersection\<close> returns the empty array, whatever the circle and the
  point are (all values of the number type, finite or not): the squared length of the
  segment is zero or NaN and so is the dividend, the projection parameter \<open>t\<close> is NaN,
  the distance \<open>d\<close> is NaN, and both comparisons of the intersection tests are false.
\<close>

theorem CircleSegmentIntersection_degenerate:
  "TSMT_CircleSegmentIntersection x1 y1 x1 y1 xc yc r = []"
proof -
  have dx: "zero_or_NaN (x1 - x1)" and dy: "zero_or_NaN (y1 - y1)"
    by (rule self_minus)+
  have n: "zero_or_NaN ((x1 - x1) * (x1 - x1) + (y1 - y1) * (y1 - y1))"
    by (intro plus_zero_or_NaN times_zero_or_NaN dx dy)
  have m: "zero_or_NaN ((xc - x1) * (x1 - x1) + (yc - y1) * (y1 - y1))"
    by (intro plus_zero_or_NaN times_zero_or_NaN dx dy)
  have t: "((xc - x1) * (x1 - x1) + (yc - y1) * (y1 - y1)) /
      ((x1 - x1) * (x1 - x1) + (y1 - y1) * (y1 - y1)) = NaN"
    by (rule divide_zero_or_NaN [OF m n])
  show ?thesis
    unfolding TSMT_CircleSegmentIntersection_def Let_def t by simp
qed

text \<open>The point \<open>(3, 4)\<close> lies on the circle of radius 5 about the origin, and \<open>(1, 1)\<close> inside it.\<close>

theorem CircleSegmentIntersection_degenerate_witness:
  "TSMT_PointInCircle (Fin 3) (Fin 4) (Fin 0) (Fin 0) (Fin 5) \<and>
   TSMT_CircleSegmentIntersection (Fin 3) (Fin 4) (Fin 3) (Fin 4) (Fin 0) (Fin 0) (Fin 5) = [] \<and>
   TSMT_PointInCircle (Fin 1) (Fin 1) (Fin 0) (Fin 0) (Fin 5) \<and>
   TSMT_CircleSegmentIntersection (Fin 1) (Fin 1) (Fin 1) (Fin 1) (Fin 0) (Fin 0) (Fin 5) = []"
  using CircleSegmentIntersection_degenerate [of "Fin 3" "Fin 4" "Fin 0" "Fin 0" "Fin 5"]
    CircleSegmentIntersection_degenerate [of "Fin 1" "Fin 1" "Fin 0" "Fin 0" "Fin 5"]
  by (simp add: PointInCircle_Fin)

section \<open>Circumradius of a triangle\<close>

text \<open>
  What the code computes for finite sides: the guard looks at the first side only, so the
  result is 0 whenever \<open>a \<le> 0\<close>, and the quotient otherwise.
\<close>

lemma TriangleCircumcircle_Fin:
  "TSMT_TriangleCircumcircle (Fin a) (Fin b) (Fin c) =
     (if a \<le> 0 then Fin 0 else circumradius_formula (Fin a) (Fin b) (Fin c))"
  by (simp add: TSMT_TriangleCircumcircle_def circumradius_formula_def num_eq_def Let_def
      algebra_simps)

text \<open>
  Claim C8 fails on the code. With the non-negative sides \<open>a = 0\<close>, \<open>b = 1\<close>, \<open>c = 1\<close>
  (and with \<open>a = 0\<close>, \<open>b = 3\<close>, \<open>c = 4\<close>) not all sides are 0, and the stated quotient is
  \<open>0 / 0\<close>, that is NaN; the code returns 0, since its guard tests three copies of the
  first side.
\<close>

theorem TriangleCircumcircle_guard_first_side:
  "TSMT_TriangleCircumcircle (Fin 0) (Fin 1) (Fin 1) = Fin 0 \<and>
   circumradius_stated (Fin 0) (Fin 1) (Fin 1) = NaN \<and>
   TSMT_TriangleCircumcircle (Fin 0) (Fin 3) (Fin 4) = Fin 0 \<and>
   circumradius_stated (Fin 0) (Fin 3) (Fin 4) = NaN"
  by (simp add: TSMT_TriangleCircumcircle_def circumradius_stated_def circumradius_formula_def
      num_eq_def)

section \<open>Steps of the simulation\<close>

lemma inside_identified [simp]: "inside (s\<lparr>pic_identified := xs\<rparr>) = inside s"
  by (simp add: inside_def)



lemma quad_keys_frame [simp]:
  "quad_keys (s\<lparr>pic_identified := a\<rparr>) = quad_keys s"
  "quad_keys (s\<lparr>pic_px := b\<rparr>) = quad_keys s"
  "quad_keys (s\<lparr>pic_py := b\<rparr>) = quad_keys s"
  "quad_keys (s\<lparr>pic_curQuad := c\<rparr>) = quad_keys s"
  "quad_keys (s\<lparr>pic_prevQuad := c\<rparr>) = quad_keys s"
  "quad_keys (s\<lparr>pic_check := d\<rparr>) = quad_keys s"
  by (simp_all add: quad_keys_def fun_eq_iff)


lemma next_unfold:
  "PicCanvasDirective_next s u1 u2 =
    (if 0 < walked_quadrant s u1 u2 \<and> walked_quadrant s u1 u2 < 5
     then
       (if walked_quadrant s u1 u2 \<noteq> pic_prevQuad s
        then (case quad_keys s (walked_quadrant s u1 u2) of
                None \<Rightarrow> Inl TypeError
              | Some ks \<Rightarrow>
                  check_forEach ks
                    ((moved s u1 u2)\<lparr>pic_prevQuad := walked_quadrant s u1 u2,
                       pic_check := Some ks\<rparr>) [])
        else (case pic_check s of
                None \<Rightarrow> Inl TypeError
              | Some ks \<Rightarrow> check_forEach ks (moved s u1 u2) []))
     else Inr (moved s u1 u2, []))"
  by (simp add: PicCanvasDirective_next_def walked_quadrant_def walked_def moved_def Let_def
      cong: if_cong option.case_cong)

lemma next_zero:
  assumes "\<not> (0 < walked_quadrant s u1 u2 \<and> walked_quadrant s u1 u2 < 5)"
  shows "PicCanvasDirective_next s u1 u2 = Inr (moved s u1 u2, [])"
  by (simp only: next_unfold if_not_P [OF assms])










lemma set_put_key [simp]: "set (put_key k ks) = insert k (set ks)"
  by (auto simp add: put_key_def set_insort_key)

lemma initCircle_fields:
  "pic_circleRefs (initCircle i xyr s) =
     pic_circleRefs s @ [made_circle i xyr (pic_width s) (pic_height s)]"
  "pic_width (initCircle i xyr s) = pic_width s"
  "pic_height (initCircle i xyr s) = pic_height s"
  "pic_check (initCircle i xyr s) = pic_check s"
  "pic_prevQuad (initCircle i xyr s) = pic_prevQuad s"
  "pic_px (initCircle i xyr s) = pic_px s"
  "pic_py (initCircle i xyr s) = pic_py s"
  by (simp_all add: initCircle_def setBounds_def made_circle_def Let_def)

lemma initCircle_quads:
  "set (pic_quad1 (initCircle i xyr s)) = set (pic_quad1 s) \<union>
     (if inQuadrant (made_circle i xyr (pic_width s) (pic_height s)) 1 then {i} else {})"
  "set (pic_quad2 (initCircle i xyr s)) = set (pic_quad2 s) \<union>
     (if inQuadrant (made_circle i xyr (pic_width s) (pic_height s)) 2 then {i} else {})"
  "set (pic_quad3 (initCircle i xyr s)) = set (pic_quad3 s) \<union>
     (if inQuadrant (made_circle i xyr (pic_width s) (pic_height s)) 3 then {i} else {})"
  "set (pic_quad4 (initCircle i xyr s)) = set (pic_quad4 s) \<union>
     (if inQuadrant (made_circle i xyr (pic_width s) (pic_height s)) 4 then {i} else {})"
  by (simp_all add: initCircle_def setBounds_def made_circle_def Let_def)

lemma fold_initCircle:
  "pic_circleRefs (fold (\<lambda>i. initCircle i (rnd i)) js s) =
     pic_circleRefs s @ map (\<lambda>i. made_circle i (rnd i) (pic_width s) (pic_height s)) js \<and>
   pic_width (fold (\<lambda>i. initCircle i (rnd i)) js s) = pic_width s \<and>
   pic_height (fold (\<lambda>i. initCircle i (rnd i)) js s) = pic_height s \<and>
   pic_check (fold (\<lambda>i. initCircle i (rnd i)) js s) = pic_check s \<and>
   pic_prevQuad (fold (\<lambda>i. initCircle i (rnd i)) js s) = pic_prevQuad s \<and>
   set (pic_quad1 (fold (\<lambda>i. initCircle i (rnd i)) js s)) = set (pic_quad1 s) \<union>
     {i \<in> set js. inQuadrant (made_circle i (rnd i) (pic_width s) (pic_height s)) 1} \<and>
   set (pic_quad2 (fold (\<lambda>i. initCircle i (rnd i)) js s)) = set (pic_quad2 s) \<union>
     {i \<in> set js. inQuadrant (made_circle i (rnd i) (pic_width s) (pic_height s)) 2} \<and>
   set (pic_quad3 (fold (\<lambda>i. initCircle i (rnd i)) js s)) = set (pic_quad3 s) \<union>
     {i \<in> set js. inQuadrant (made_circle i (rnd i) (pic_width s) (pic_height s)) 3} \<and>
   set (pic_quad4 (fold (\<lambda>i. initCircle i (rnd i)) js s)) = set (pic_quad4 s) \<union>
     {i \<in> set js. inQuadrant (made_circle i (rnd i) (pic_width s) (pic_height s)) 4}"
proof (induction js arbitrary: s)
  case Nil
  then show ?case by simp
next
  case (Cons j js)
  have step: "fold (\<lambda>i. initCircle i (rnd i)) (j # js) s =
      fold (\<lambda>i. initCircle i (rnd i)) js (initCircle j (rnd j) s)"
    by simp
  show ?case
    unfolding step
    using Cons.IH [of "initCircle j (rnd j) s"]
    by (simp add: initCircle_fields initCircle_quads) blast
qed

lemma ngOnInit_fields:
  "pic_circleRefs (PicCanvasDirective_ngOnInit w h rnd) =
     map (\<lambda>i. made_circle i (rnd i) w h) [0..<NUM_CIRCLES]"
  "pic_width (PicCanvasDirective_ngOnInit w h rnd) = w"
  "pic_height (PicCanvasDirective_ngOnInit w h rnd) = h"
  "pic_check (PicCanvasDirective_ngOnInit w h rnd) = None"
  "pic_prevQuad (PicCanvasDirective_ngOnInit w h rnd) = - 1"
  "set (pic_quad1 (PicCanvasDirective_ngOnInit w h rnd)) =
     {i. i < NUM_CIRCLES \<and> inQuadrant (made_circle i (rnd i) w h) 1}"
  "set (pic_quad2 (PicCanvasDirective_ngOnInit w h rnd)) =
     {i. i < NUM_CIRCLES \<and> inQuadrant (made_circle i (rnd i) w h) 2}"
  "set (pic_quad3 (PicCanvasDirective_ngOnInit w h rnd)) =
     {i. i < NUM_CIRCLES \<and> inQuadrant (made_circle i (rnd i) w h) 3}"
  "set (pic_quad4 (PicCanvasDirective_ngOnInit w h rnd)) =
     {i. i < NUM_CIRCLES \<and> inQuadrant (made_circle i (rnd i) w h) 4}"
  unfolding PicCanvasDirective_ngOnInit_def PicCanvasDirective_initCircles_def Let_def
  by (simp_all add: fold_initCircle PicCanvasDirective_constructor_def)





lemma ngOnInit_keys_in_range: "keys_in_range (PicCanvasDirective_ngOnInit w h rnd)"
  by (simp add: keys_in_range_def Let_def ngOnInit_fields list_all_iff)

lemma inQuadrant_made:
  "inQuadrant (made_circle i (Fin cx, Fin cy, Fin r) (Fin w) (Fin h)) q =
     (if q = 1 then (cx - r \<le> w \<and> w / 2 \<le> cx + r) \<and>
        (if 0 \<le> h then cy - r \<le> h / 2 \<and> 0 \<le> cy + r else cy - r \<le> 0 \<and> h / 2 \<le> cy + r)
      else if q = 2 then (cx - r \<le> w \<and> w / 2 \<le> cx + r) \<and>
        (if 0 \<le> h then cy - r \<le> h \<and> h / 2 \<le> cy + r else cy - r \<le> h / 2 \<and> h \<le> cy + r)
      else if q = 3 then (cx - r \<le> w / 2 \<and> 0 \<le> cx + r) \<and>
        (if 0 \<le> h then cy - r \<le> h \<and> h / 2 \<le> cy + r else cy - r \<le> h / 2 \<and> h \<le> cy + r)
      else if q = 4 then (cx - r \<le> w / 2 \<and> 0 \<le> cx + r) \<and>
        (if 0 \<le> h then cy - r \<le> h / 2 \<and> 0 \<le> cy + r else cy - r \<le> 0 \<and> h / 2 \<le> cy + r)
      else False)"
  by (simp add: inQuadrant_def made_circle_def intervals_meet_def Let_def cong: if_cong)

lemma quadrant_region_origin:
  "quadrant_region q px py 0 0 w h =
     (if q = 1 then (w / 2 \<le> px \<and> px \<le> w) \<and>
        (if 0 \<le> h then 0 \<le> py \<and> py \<le> h / 2 else h / 2 \<le> py \<and> py \<le> 0)
      else if q = 2 then (w / 2 \<le> px \<and> px \<le> w) \<and>
        (if 0 \<le> h then h / 2 \<le> py \<and> py \<le> h else h \<le> py \<and> py \<le> h / 2)
      else if q = 3 then (0 \<le> px \<and> px \<le> w / 2) \<and>
        (if 0 \<le> h then h / 2 \<le> py \<and> py \<le> h else h \<le> py \<and> py \<le> h / 2)
      else if q = 4 then (0 \<le> px \<and> px \<le> w / 2) \<and>
        (if 0 \<le> h then 0 \<le> py \<and> py \<le> h / 2 else h / 2 \<le> py \<and> py \<le> 0)
      else False)"
  by (simp add: quadrant_region_def Let_def cong: if_cong)

lemma inQuadrant_region:
  assumes box: "cx - r \<le> px" "px \<le> cx + r" "cy - r \<le> py" "py \<le> cy + r"
    and reg: "quadrant_region q px py 0 0 w h"
  shows "inQuadrant (made_circle i (Fin cx, Fin cy, Fin r) (Fin w) (Fin h)) q"
proof -
  have q: "q = 1 \<or> q = 2 \<or> q = 3 \<or> q = 4"
    using reg unfolding quadrant_region_origin by (simp split: if_splits)
  have x: "cx - r \<le> w \<and> w / 2 \<le> cx + r" if "w / 2 \<le> px \<and> px \<le> w"
    using that box by linarith
  have x': "cx - r \<le> w / 2 \<and> 0 \<le> cx + r" if "0 \<le> px \<and> px \<le> w / 2"
    using that box by linarith
  have t: "cy - r \<le> h / 2 \<and> 0 \<le> cy + r" if "0 \<le> py \<and> py \<le> h / 2"
    using that box by linarith
  have t': "cy - r \<le> 0 \<and> h / 2 \<le> cy + r" if "h / 2 \<le> py \<and> py \<le> 0"
    using that box by linarith
  have b: "cy - r \<le> h \<and> h / 2 \<le> cy + r" if "h / 2 \<le> py \<and> py \<le> h"
    using that box by linarith
  have b': "cy - r \<le> h / 2 \<and> h \<le> cy + r" if "h \<le> py \<and> py \<le> h / 2"
    using that box by linarith
  from q reg show ?thesis
    unfolding inQuadrant_made quadrant_region_origin
    using x x' t t' b b' by (auto split: if_splits)
qed

lemma getQuadrant_region:
  assumes "TSMT_getQuadrant (Fin px) (Fin py) (Fin left) (Fin top') (Fin right) (Fin bottom) = q"
    and "q \<in> {1, 2, 3, 4}"
  shows "quadrant_region q px py left top' right bottom"
  using assms unfolding getQuadrant_Fin by (auto split: if_splits)

lemma quad_keys_ngOnInit:
  assumes "q \<in> {1, 2, 3, 4}"
  shows "\<exists>ks. quad_keys (PicCanvasDirective_ngOnInit w h rnd) q = Some ks \<and>
     set ks = {i. i < NUM_CIRCLES \<and> inQuadrant (made_circle i (rnd i) w h) q}"
  using assms by (auto simp add: quad_keys_def ngOnInit_fields)

text \<open>
  Claim C2. After \<^verbatim>\<open>ngOnInit\<close> on a canvas of finite width and height with finite draws,
  for every circle of the array and every finite point that \<^verbatim>\<open>TSMT$PointInCircle\<close> puts
  in the circle: if \<^verbatim>\<open>TSMT$getQuadrant\<close> returns \<open>q\<close> in 1 to 4 for the point, the
  identifier of the circle is a key of the map of quadrant \<open>q\<close>; and the identifier is a
  key of the map of every quadrant whose closed region holds a point of the circle.
  The assignment of circles to quadrants is the one modelled from the specification.
\<close>

theorem quadrant_map_no_false_negative:
  assumes c: "c \<in> set (pic_circleRefs (PicCanvasDirective_ngOnInit (Fin w) (Fin h) (finite_draws rnd)))"
    and p: "TSMT_PointInCircle (Fin px) (Fin py) (c_x c) (c_y c) (c_radius c)"
  shows "(\<forall>q \<in> {1, 2, 3, 4}.
            TSMT_getQuadrant (Fin px) (Fin py) (Fin 0) (Fin 0) (Fin w) (Fin h) = q \<longrightarrow>
            (\<exists>ks. quad_keys (PicCanvasDirective_ngOnInit (Fin w) (Fin h) (finite_draws rnd)) q = Some ks \<and>
                  c_id c \<in> set ks)) \<and>
         (\<forall>q. quadrant_region q px py 0 0 w h \<longrightarrow>
            (\<exists>ks. quad_keys (PicCanvasDirective_ngOnInit (Fin w) (Fin h) (finite_draws rnd)) q = Some ks \<and>
                  c_id c \<in> set ks))"
proof -
  from c obtain i where i: "i < NUM_CIRCLES"
    and ci: "c = made_circle i (finite_draws rnd i) (Fin w) (Fin h)"
    by (auto simp add: ngOnInit_fields)
  obtain cx cy r where d: "finite_draws rnd i = (Fin cx, Fin cy, Fin r)"
    by (simp add: finite_draws_def)
  have id: "c_id c = i" and f: "c_x c = Fin cx" "c_y c = Fin cy" "c_radius c = Fin r"
    by (simp_all add: ci d made_circle_def)
  from p have box: "cx - r \<le> px" "px \<le> cx + r" "cy - r \<le> py" "py \<le> cy + r"
    unfolding f PointInCircle_Fin by simp_all
  have reg: "\<exists>ks. quad_keys (PicCanvasDirective_ngOnInit (Fin w) (Fin h) (finite_draws rnd)) q = Some ks \<and>
      c_id c \<in> set ks" if r: "quadrant_region q px py 0 0 w h" for q
  proof -
    have q: "q \<in> {1, 2, 3, 4}"
      using r by (auto simp add: quadrant_region_def Let_def split: if_splits)
    have "inQuadrant (made_circle i (finite_draws rnd i) (Fin w) (Fin h)) q"
      unfolding d by (rule inQuadrant_region [OF box r])
    with quad_keys_ngOnInit [OF q, of "Fin w" "Fin h" "finite_draws rnd"] i id
    show ?thesis by auto
  qed
  show ?thesis
    using reg getQuadrant_region by blast
qed

text \<open>
  All draws are the circle of radius 10 about \<open>(75, 25)\<close> on a canvas of 100 by 100: its
  centre is in quadrant 1, and the identifier 0 is a key of the first quadrant map.
\<close>

theorem quadrant_map_no_false_negative_witness:
  "TSMT_PointInCircle (Fin 75) (Fin 25) (Fin 75) (Fin 25) (Fin 10) \<and>
   TSMT_getQuadrant (Fin 75) (Fin 25) (Fin 0) (Fin 0) (Fin 100) (Fin 100) = 1 \<and>
   0 \<in> set (pic_quad1 (PicCanvasDirective_ngOnInit (Fin 100) (Fin 100)
                (finite_draws (\<lambda>i. (75, 25, 10)))))"
proof -
  define c where "c = made_circle 0 (Fin 75, Fin 25, Fin 10) (Fin 100) (Fin 100)"
  have m: "c \<in> set (pic_circleRefs (PicCanvasDirective_ngOnInit (Fin 100) (Fin 100)
      (finite_draws (\<lambda>i. (75, 25, 10)))))"
    by (auto simp add: ngOnInit_fields c_def finite_draws_def NUM_CIRCLES_def)
  have p: "TSMT_PointInCircle (Fin 75) (Fin 25) (c_x c) (c_y c) (c_radius c)"
    by (simp add: c_def made_circle_def PointInCircle_Fin)
  have q: "TSMT_getQuadrant (Fin 75) (Fin 25) (Fin 0) (Fin 0) (Fin 100) (Fin 100) = 1"
    by (simp add: getQuadrant_Fin quadrant_region_origin)
  have "\<exists>ks. quad_keys (PicCanvasDirective_ngOnInit (Fin 100) (Fin 100)
      (finite_draws (\<lambda>i. (75, 25, 10)))) 1 = Some ks \<and> c_id c \<in> set ks"
    using quadrant_map_no_false_negative [OF m p] q by blast
  then have "0 \<in> set (pic_quad1 (PicCanvasDirective_ngOnInit (Fin 100) (Fin 100)
      (finite_draws (\<lambda>i. (75, 25, 10)))))"
    by (simp add: quad_keys_def c_def made_circle_def)
  with q show ?thesis by (simp add: PointInCircle_Fin)
qed

lemma walk_three:
  "pointRandomWalk (Fin x) (Fin y) LOW_RADIUS HIGH_RADIUS (Fin 0) (Fin 0.1) = (Fin (x + 3), Fin y)"
  "pointRandomWalk (Fin x) (Fin y) LOW_RADIUS HIGH_RADIUS (Fin 0) (Fin 0.3) = (Fin (x - 3), Fin y)"
  "pointRandomWalk (Fin x) (Fin y) LOW_RADIUS HIGH_RADIUS (Fin 0) (Fin 0.9) = (Fin x, Fin (y - 3))"
  by (simp_all add: pointRandomWalk_def LOW_RADIUS_def HIGH_RADIUS_def Let_def)

text \<open>
  Claim C3. When \<^verbatim>\<open>TSMT$getQuadrant\<close> returns 0 for the point after the walk, \<^verbatim>\<open>next\<close>
  returns without an exception, emits no identifier and leaves \<^verbatim>\<open>_identified\<close> empty: the
  new state is the old one with the point moved and the quadrant 0 stored, whatever the
  circles are. No circle is tested against the point.
\<close>

theorem next_without_quadrant:
  assumes "walked_quadrant s u1 u2 = 0"
  shows "PicCanvasDirective_next s u1 u2 =
    Inr (s\<lparr>pic_identified := [], pic_px := fst (walked s u1 u2),
            pic_py := snd (walked s u1 u2), pic_curQuad := 0\<rparr>, [])"
proof -
  have "\<not> (0 < walked_quadrant s u1 u2 \<and> walked_quadrant s u1 u2 < 5)"
    using assms by simp
  from next_zero [OF this] assms show ?thesis by (simp add: moved_def)
qed

text \<open>
  From the state \<open>edge_state\<close> the walk by 3 to the left leaves the canvas: the quadrant
  is 0 and nothing is emitted, although the point \<open>(-3, 50)\<close> lies in the first circle.
\<close>

theorem next_without_quadrant_witness:
  "walked edge_state (Fin 0) (Fin 0.3) = (Fin (- 3), Fin 50) \<and>
   walked_quadrant edge_state (Fin 0) (Fin 0.3) = 0 \<and>
   TSMT_PointInCircle (Fin (- 3)) (Fin 50) (Fin 0) (Fin 50) (Fin 10) \<and>
   PicCanvasDirective_next edge_state (Fin 0) (Fin 0.3) =
     Inr (edge_state\<lparr>pic_px := Fin (- 3), pic_curQuad := 0\<rparr>, [])"
proof -
  have w: "walked edge_state (Fin 0) (Fin 0.3) = (Fin (- 3), Fin 50)"
    by (simp add: walked_def edge_state_def walk_three)
  have q: "walked_quadrant edge_state (Fin 0) (Fin 0.3) = 0"
    unfolding walked_quadrant_def w by (simp add: edge_state_def getQuadrant_Fin quadrant_region_origin)
  show ?thesis
    using next_without_quadrant [OF q] w q by (simp add: PointInCircle_Fin edge_state_def)
qed






end
